theory Spec2Isabelle
  imports Main "HOL-Library.Sublist"
begin

section \<open>Runtime values\<close>

text \<open>
  The values the codec traverses. Numbers are modelled as integers, a Date is an opaque leaf
  identified by its time value, and the keys of a Map are primitives. A plain object is the
  list of its own enumerable properties in the order \<open>Object.entries\<close> gives them (keys
  that are array indices first, in ascending numeric order, then the other keys in insertion
  order); a Map is the list of its entries and a Set the list of its members, both in
  insertion order. Object identity is not modelled: two members of a Set that are not
  primitives are taken to be distinct objects.
\<close>

datatype jskey = KUndefined | KNull | KBool bool | KNum int | KStr string

datatype jsval =
    JUndefined
  | JNull
  | JBool bool
  | JNum int
  | JStr string
  | JDate int
  | JArr "jsval list"
  | JObj "(string \<times> jsval) list"
  | JMap "(jskey \<times> jsval) list"
  | JSet "jsval list"

text \<open>The string form of a Map key, as a property key of the intermediate object.\<close>

definition digit_char :: "nat \<Rightarrow> char" where
  "digit_char d = ''0123456789'' ! d"

fun show_nat :: "nat \<Rightarrow> string" where
  "show_nat n = (if n < 10 then [digit_char n] else show_nat (n div 10) @ [digit_char (n mod 10)])"

declare show_nat.simps [simp del]

definition show_int :: "int \<Rightarrow> string" where
  "show_int i = (if i < 0 then CHR ''-'' # show_nat (nat (- i)) else show_nat (nat i))"

fun String_key :: "jskey \<Rightarrow> string" where
  "String_key KUndefined = ''undefined''"
| "String_key KNull = ''null''"
| "String_key (KBool b) = (if b then ''true'' else ''false'')"
| "String_key (KNum i) = show_int i"
| "String_key (KStr s) = s"

text \<open>
  Assignment \<open>obj[key] = value\<close> on a plain object: an existing property keeps its place, a
  new one is enumerated before the properties it \<open>comes_before\<close>.
\<close>

definition is_digit :: "char \<Rightarrow> bool" where
  "is_digit c = (48 \<le> (of_char c :: nat) \<and> (of_char c :: nat) \<le> 57)"

definition dec_val :: "string \<Rightarrow> nat" where
  "dec_val s = foldl (\<lambda>n c. 10 * n + ((of_char c :: nat) - 48)) 0 s"

definition is_array_index :: "string \<Rightarrow> bool" where
  "is_array_index s =
     (s \<noteq> [] \<and> list_all is_digit s \<and> (hd s \<noteq> CHR ''0'' \<or> length s = 1) \<and> dec_val s < 4294967295)"

definition comes_before :: "string \<Rightarrow> string \<Rightarrow> bool" where
  "comes_before k k' =
     (is_array_index k \<and> (\<not> is_array_index k' \<or> dec_val k < dec_val k'))"

fun insert_new :: "(string \<times> 'a) list \<Rightarrow> string \<Rightarrow> 'a \<Rightarrow> (string \<times> 'a) list" where
  "insert_new [] k v = [(k, v)]"
| "insert_new ((k', v') # ps) k v =
     (if comes_before k k' then (k, v) # (k', v') # ps else (k', v') # insert_new ps k v)"

definition obj_set :: "(string \<times> 'a) list \<Rightarrow> string \<Rightarrow> 'a \<Rightarrow> (string \<times> 'a) list" where
  "obj_set ps k v =
     (if k \<in> fst ` set ps then map (\<lambda>p. if fst p = k then (k, v) else p) ps
      else insert_new ps k v)"

definition obj_assign :: "(string \<times> 'a) list \<Rightarrow> (string \<times> 'a) list \<Rightarrow> (string \<times> 'a) list" where
  "obj_assign init kvs = foldl (\<lambda>obj (k, v). obj_set obj k v) init kvs"

definition has_key :: "string \<Rightarrow> (string \<times> 'a) list \<Rightarrow> bool" where
  "has_key k ps = (k \<in> fst ` set ps)"

text \<open>
  \<open>new Set(xs)\<close>: a primitive already present (SameValueZero) is not added again.
\<close>

fun is_primitive :: "jsval \<Rightarrow> bool" where
  "is_primitive JUndefined = True"
| "is_primitive JNull = True"
| "is_primitive (JBool _) = True"
| "is_primitive (JNum _) = True"
| "is_primitive (JStr _) = True"
| "is_primitive _ = False"

definition set_add :: "jsval list \<Rightarrow> jsval \<Rightarrow> jsval list" where
  "set_add s x = (if is_primitive x \<and> x \<in> set s then s else s @ [x])"

definition new_Set :: "jsval list \<Rightarrow> jsval list" where
  "new_Set xs = foldl set_add [] xs"

text \<open>
  \<open>mapSetToObject\<close> and \<open>objectToMapSet\<close>. The branches follow the source's order. The
  only operation of \<open>objectToMapSet\<close> that can fail on these values is \<open>obj.values.map\<close>
  when \<open>values\<close> is not an array; the catch block then returns the object as it is. A Map
  or a Set given to \<open>objectToMapSet\<close> has no own enumerable property and comes back as an
  empty object.
\<close>

fun mapSetToObject :: "jsval \<Rightarrow> jsval" where
  "mapSetToObject (JMap es) =
     JObj (obj_assign [(''__isMap'', JBool True)]
             (map (\<lambda>(k, v). (String_key k, mapSetToObject v)) es))"
| "mapSetToObject (JSet xs) =
     JObj [(''__isSet'', JBool True), (''values'', JArr (map mapSetToObject xs))]"
| "mapSetToObject (JArr xs) = JArr (map mapSetToObject xs)"
| "mapSetToObject (JObj ps) =
     JObj (obj_assign [] (map (\<lambda>(k, v). (k, mapSetToObject v)) ps))"
| "mapSetToObject item = item"


text \<open>
  What the round trip is compared with: the value itself, with the keys of every Map coerced
  to strings (\<open>coerce_map_keys\<close>), and the values on which the sentinel fields cannot be
  mistaken (\<open>sentinel_free\<close>). The first two conditions on a plain object say that the list
  is a property list as \<open>Object.entries\<close> returns it.
\<close>

definition js_ordered :: "string list \<Rightarrow> bool" where
  "js_ordered ks = sorted_wrt (\<lambda>a b. \<not> comes_before b a) ks"



section \<open>The plugin\<close>

text \<open>
  The fields of \<open>TeraFileSyncPlugin\<close> that the persistence logic reads or writes. The host
  binding records, for each capability of \<open>$tera\<close>, whether it is a function, and holds the
  project descriptor, which the plugin reads and (for \<open>temp\<close>) writes. The status store is
  represented by the status it holds; \<open>errorLog\<close> collects the contexts passed to
  \<open>logError\<close>. Event listeners, the autosave timer and debug logging are left out.

  An asynchronous method is a pair of functions: \<open>_start\<close> runs the method up to its first
  await, \<open>_resume\<close> continues it from an await with the host's reply. A step ends in
  \<open>Await c k\<close> (the host call \<open>c\<close> was made and the method waits at \<open>k\<close>),
  in \<open>Done r\<close> (it returned \<open>r\<close>) or in \<open>Throw e\<close> (it threw an error with message
  \<open>e\<close>). A reply resolves with a value or rejects with an \<open>Error\<close> carrying a message,
  which is what the source's \<open>(error as Error).message\<close> reads. The value \<open>getUser\<close>
  resolves with is read at its declared type, an object with a string \<open>id\<close>; any other value
  is treated as \<open>undefined\<close> is, by a TypeError. Strings are byte strings, so \<open>btoa\<close> is
  total.
\<close>

datatype SAVE_STATUS = SAVED | UNSAVED | SAVING

record TeraPluginConfig =
  keyPrefix :: string
  isSeparateStateForEachUser :: bool
  autoSaveIntervalMinutes :: int
  showInitialAlert :: bool
  enableSaveHotkey :: bool

record TeraProject =
  project_id :: "string option"
  project_temp :: "(string \<times> jsval) list option"

record TeraInstance =
  getUser_fn :: bool
  getProjectFileContents_fn :: bool
  setProjectFileContents_fn :: bool
  uiProgress_fn :: bool
  createProjectFile_fn :: bool
  setProjectState_fn :: bool
  project :: "TeraProject option"

record VueInstance =
  tera :: "TeraInstance option"

record TeraFileSyncPlugin =
  config :: TeraPluginConfig
  initialized :: bool
  teraReady :: bool
  vueInstance :: "VueInstance option"
  userId :: "string option"
  saveInProgress :: bool
  saveStatus :: SAVE_STATUS
  hasShownInitialAlert :: bool
  syncStatusStore :: "SAVE_STATUS option"
  errorLog :: "string list"

datatype host_call =
    GetUser
  | GetProjectFileContents string
  | SetProjectFileContents string jsval
  | UiProgressShow string
  | UiProgressHide
  | CreateProjectFile string
  | SetProjectState string string

datatype reply = Resolved jsval | Rejected string

datatype ('k, 'r) step = Await host_call 'k | Done 'r | Throw string

definition DEFAULT_CONFIG :: TeraPluginConfig where
  "DEFAULT_CONFIG = \<lparr> keyPrefix = '''', isSeparateStateForEachUser = False,
     autoSaveIntervalMinutes = 10, showInitialAlert = True, enableSaveHotkey = True \<rparr>"

definition validateConfig :: "TeraPluginConfig \<Rightarrow> string option" where
  "validateConfig c =
     (if autoSaveIntervalMinutes c < 0 then Some ''autoSaveIntervalMinutes must be a non-negative number''
      else None)"

definition new_TeraFileSyncPlugin :: "TeraPluginConfig \<Rightarrow> string + TeraFileSyncPlugin" where
  "new_TeraFileSyncPlugin c =
     (case validateConfig c of
        Some e \<Rightarrow> Inl e
      | None \<Rightarrow> Inr \<lparr> config = c, initialized = False, teraReady = False, vueInstance = None,
          userId = None, saveInProgress = False, saveStatus = SAVED,
          hasShownInitialAlert = False, syncStatusStore = None, errorLog = [] \<rparr>)"

definition validateVueInstance :: "VueInstance option \<Rightarrow> string option" where
  "validateVueInstance instance =
     (case instance of
        None \<Rightarrow> Some ''Vue instance is required''
      | Some vi \<Rightarrow>
          (case tera vi of
             None \<Rightarrow> Some ''Vue instance must have $tera property''
           | Some t \<Rightarrow>
               if \<not> getUser_fn t then Some ''$tera.getUser must be a function''
               else if \<not> getProjectFileContents_fn t then Some ''$tera.getProjectFileContents must be a function''
               else if \<not> setProjectFileContents_fn t then Some ''$tera.setProjectFileContents must be a function''
               else if \<not> uiProgress_fn t then Some ''$tera.uiProgress must be a function''
               else None))"

fun truthy :: "jsval \<Rightarrow> bool" where
  "truthy JUndefined = False"
| "truthy JNull = False"
| "truthy (JBool b) = b"
| "truthy (JNum n) = (n \<noteq> 0)"
| "truthy (JStr s) = (s \<noteq> [])"
| "truthy _ = True"

definition b64_alphabet :: string where
  "b64_alphabet = ''ABCDEFGHIJKLMNOPQRSTUVWXYZabcdefghijklmnopqrstuvwxyz0123456789+/''"

fun b64_groups :: "nat list \<Rightarrow> string" where
  "b64_groups (a # b # c # rest) =
     [b64_alphabet ! (a div 4), b64_alphabet ! ((a mod 4) * 16 + b div 16),
      b64_alphabet ! ((b mod 16) * 4 + c div 64), b64_alphabet ! (c mod 64)] @ b64_groups rest"
| "b64_groups [a, b] =
     [b64_alphabet ! (a div 4), b64_alphabet ! ((a mod 4) * 16 + b div 16),
      b64_alphabet ! ((b mod 16) * 4), CHR ''='']"
| "b64_groups [a] =
     [b64_alphabet ! (a div 4), b64_alphabet ! ((a mod 4) * 16), CHR ''='', CHR ''='']"
| "b64_groups [] = []"

definition btoa :: "string \<Rightarrow> string" where
  "btoa s = b64_groups (map of_char s)"

definition TypeError :: string where
  "TypeError = ''TypeError''"

definition logError :: "TeraFileSyncPlugin \<Rightarrow> string \<Rightarrow> TeraFileSyncPlugin" where
  "logError st context = st\<lparr> errorLog := errorLog st @ [context] \<rparr>"

definition get_tera :: "TeraFileSyncPlugin \<Rightarrow> TeraInstance option" where
  "get_tera st = (case vueInstance st of None \<Rightarrow> None | Some vi \<Rightarrow> tera vi)"

definition get_project :: "TeraFileSyncPlugin \<Rightarrow> TeraProject option" where
  "get_project st = (case get_tera st of None \<Rightarrow> None | Some t \<Rightarrow> project t)"

definition set_project :: "TeraFileSyncPlugin \<Rightarrow> TeraProject \<Rightarrow> TeraFileSyncPlugin" where
  "set_project st p =
     st\<lparr> vueInstance := map_option (\<lambda>vi. vi\<lparr> tera := map_option (\<lambda>t. t\<lparr> project := Some p \<rparr>) (tera vi) \<rparr>)
            (vueInstance st) \<rparr>"

definition updateSaveStatus :: "TeraFileSyncPlugin \<Rightarrow> SAVE_STATUS \<Rightarrow> TeraFileSyncPlugin" where
  "updateSaveStatus st status =
     (case syncStatusStore st of
        None \<Rightarrow> st
      | Some _ \<Rightarrow> st\<lparr> saveStatus := status, syncStatusStore := Some status \<rparr>)"

definition getSaveStatus :: "TeraFileSyncPlugin \<Rightarrow> SAVE_STATUS" where
  "getSaveStatus st = saveStatus st"

definition setVueInstance :: "TeraFileSyncPlugin \<Rightarrow> VueInstance option \<Rightarrow> TeraFileSyncPlugin" where
  "setVueInstance st instance = st\<lparr> vueInstance := instance \<rparr>"

definition on_store_change :: "TeraFileSyncPlugin \<Rightarrow> TeraFileSyncPlugin" where
  "on_store_change st = (if saveStatus st \<noteq> SAVING then updateSaveStatus st UNSAVED else st)"

text \<open>\<open>getStorageKey\<close>\<close>

definition user_id :: "jsval \<Rightarrow> string option" where
  "user_id user =
     (case user of
        JObj ps \<Rightarrow> (case map_of ps ''id'' of Some (JStr u) \<Rightarrow> Some u | _ \<Rightarrow> None)
      | _ \<Rightarrow> None)"

definition template_string :: "string \<Rightarrow> string option \<Rightarrow> string" where
  "template_string absent u = (case u of None \<Rightarrow> absent | Some s \<Rightarrow> s)"

definition falsy_string :: "string option \<Rightarrow> bool" where
  "falsy_string u = (case u of None \<Rightarrow> True | Some s \<Rightarrow> s = [])"

datatype key_pc = KeyAwaitUser

definition getStorageKey_start :: "TeraFileSyncPlugin \<Rightarrow> TeraFileSyncPlugin \<times> (key_pc, string) step" where
  "getStorageKey_start st =
     (if isSeparateStateForEachUser (config st) then
        (if falsy_string (userId st) \<and> vueInstance st \<noteq> None then
           (case get_tera st of
              None \<Rightarrow> (logError st ''Failed to get user ID'', Throw TypeError)
            | Some t \<Rightarrow>
                if getUser_fn t then (st, Await GetUser KeyAwaitUser)
                else (logError st ''Failed to get user ID'', Throw TypeError))
         else (st, Done (keyPrefix (config st) @ ''-'' @ template_string ''null'' (userId st))))
      else (st, Done (keyPrefix (config st))))"

definition getStorageKey_resume ::
  "TeraFileSyncPlugin \<Rightarrow> key_pc \<Rightarrow> reply \<Rightarrow> TeraFileSyncPlugin \<times> (key_pc, string) step" where
  "getStorageKey_resume st pc r =
     (case r of
        Rejected e \<Rightarrow> (logError st ''Failed to get user ID'', Throw e)
      | Resolved user \<Rightarrow>
          (case user_id user of
             None \<Rightarrow> (logError st ''Failed to get user ID'', Throw TypeError)
           | Some u \<Rightarrow>
               (st\<lparr> userId := Some u \<rparr>, Done (keyPrefix (config st) @ ''-'' @ template_string ''null'' (Some u)))))"

text \<open>
  \<open>getStorageFileName\<close>; \<open>nid\<close> is the identifier \<open>nanoid()\<close> returns if it is called.
\<close>

datatype fn_pc = FnAwaitUser string | FnAwaitCreate string string | FnAwaitSetState string

definition fn_finish :: "TeraFileSyncPlugin \<Rightarrow> jsval \<Rightarrow> TeraFileSyncPlugin \<times> (fn_pc, string) step" where
  "fn_finish st fileStorageName =
     (case fileStorageName of
        JStr name \<Rightarrow>
          (case get_project st of
             None \<Rightarrow> (st, Throw TypeError)
           | Some p \<Rightarrow> (st, Done (template_string ''undefined'' (project_id p) @ ''/'' @ name)))
      | _ \<Rightarrow> (st, Throw ''fileStorageName is not a string''))"


definition fn_create :: "TeraFileSyncPlugin \<Rightarrow> string \<Rightarrow> string \<Rightarrow> TeraFileSyncPlugin \<times> (fn_pc, string) step" where
  "fn_create st key nid =
     (let fileStorageName = ''data-'' @ keyPrefix (config st) @ ''-'' @ nid @ ''.json'' in
      case get_tera st of
        None \<Rightarrow> (st, Throw TypeError)
      | Some t \<Rightarrow>
          if createProjectFile_fn t then (st, Await (CreateProjectFile fileStorageName) (FnAwaitCreate key fileStorageName))
          else (st, Throw ''createProjectFile function not available''))"

definition fn_lookup :: "TeraFileSyncPlugin \<Rightarrow> string \<Rightarrow> string \<Rightarrow> TeraFileSyncPlugin \<times> (fn_pc, string) step" where
  "fn_lookup st key nid =
     (case get_project st of
        None \<Rightarrow> (st, Throw TypeError)
      | Some p \<Rightarrow>
          (case project_temp p of
             None \<Rightarrow> (st, Throw TypeError)
           | Some tmp \<Rightarrow>
               (case map_of tmp key of
                  Some fileStorageName \<Rightarrow>
                    if truthy fileStorageName then fn_finish st fileStorageName
                    else fn_create st key nid
                | None \<Rightarrow> fn_create st key nid)))"

definition fn_after_key ::
  "string \<Rightarrow> TeraFileSyncPlugin \<times> (key_pc, string) step \<Rightarrow> TeraFileSyncPlugin \<times> (fn_pc, string) step" where
  "fn_after_key nid res =
     (case res of
        (st, Await c k) \<Rightarrow> (st, Await c (FnAwaitUser nid))
      | (st, Throw e) \<Rightarrow> (st, Throw e)
      | (st, Done key) \<Rightarrow> fn_lookup st key nid)"

definition getStorageFileName_start :: "TeraFileSyncPlugin \<Rightarrow> string \<Rightarrow> TeraFileSyncPlugin \<times> (fn_pc, string) step" where
  "getStorageFileName_start st nid =
     (case get_project st of
        None \<Rightarrow> (st, Throw ''Missing vueInstance.$tera.project'')
      | Some p \<Rightarrow>
          (let p' = (if project_temp p = None then p\<lparr> project_temp := Some [] \<rparr> else p);
               st' = (if project_temp p = None then set_project st p' else st)
           in if falsy_string (project_id p') then (st', Throw ''Missing vueInstance.$tera.project.id'')
              else fn_after_key nid (getStorageKey_start st')))"

definition getStorageFileName_resume ::
  "TeraFileSyncPlugin \<Rightarrow> fn_pc \<Rightarrow> reply \<Rightarrow> TeraFileSyncPlugin \<times> (fn_pc, string) step" where
  "getStorageFileName_resume st pc r =
     (case pc of
        FnAwaitUser nid \<Rightarrow> fn_after_key nid (getStorageKey_resume st KeyAwaitUser r)
      | FnAwaitCreate key fileStorageName \<Rightarrow>
          (case r of
             Rejected e \<Rightarrow> (st, Throw e)
           | Resolved _ \<Rightarrow>
               (case get_tera st of
                  None \<Rightarrow> (st, Throw TypeError)
                | Some t \<Rightarrow>
                    if setProjectState_fn t
                    then (st, Await (SetProjectState (''temp.'' @ key) fileStorageName) (FnAwaitSetState fileStorageName))
                    else (st, Throw ''setProjectState function not available'')))
      | FnAwaitSetState fileStorageName \<Rightarrow>
          (case r of
             Rejected e \<Rightarrow> (st, Throw e)
           | Resolved _ \<Rightarrow> fn_finish st (JStr fileStorageName)))"

text \<open>\<open>loadStateFromFile\<close>; \<open>load_catch\<close> is its catch block.\<close>

datatype load_pc = LoadFileName fn_pc | LoadAwaitRead

definition load_catch :: "TeraFileSyncPlugin \<Rightarrow> string \<Rightarrow> TeraFileSyncPlugin \<times> (load_pc, jsval) step" where
  "load_catch st e =
     (if e \<noteq> [] \<and> sublist ''not found'' e then (st, Done JNull)
      else (logError st ''Failed to load state from file'', Done JNull))"

definition load_read :: "TeraFileSyncPlugin \<Rightarrow> string \<Rightarrow> TeraFileSyncPlugin \<times> (load_pc, jsval) step" where
  "load_read st fileName =
     (if fileName = [] then (st, Done JNull)
      else
        (let encodedFileName = btoa fileName in
         case vueInstance st of
           None \<Rightarrow> load_catch st ''Vue instance is null''
         | Some vi \<Rightarrow>
             (case tera vi of
                None \<Rightarrow> load_catch st TypeError
              | Some t \<Rightarrow>
                  if getProjectFileContents_fn t
                  then (st, Await (GetProjectFileContents encodedFileName) LoadAwaitRead)
                  else load_catch st TypeError)))"

definition load_after_name ::
  "TeraFileSyncPlugin \<times> (fn_pc, string) step \<Rightarrow> TeraFileSyncPlugin \<times> (load_pc, jsval) step" where
  "load_after_name res =
     (case res of
        (st, Await c k) \<Rightarrow> (st, Await c (LoadFileName k))
      | (st, Throw e) \<Rightarrow> load_catch st e
      | (st, Done fileName) \<Rightarrow> load_read st fileName)"

definition loadStateFromFile_start :: "TeraFileSyncPlugin \<Rightarrow> string \<Rightarrow> TeraFileSyncPlugin \<times> (load_pc, jsval) step" where
  "loadStateFromFile_start st nid = load_after_name (getStorageFileName_start st nid)"

definition loadStateFromFile_resume ::
  "TeraFileSyncPlugin \<Rightarrow> load_pc \<Rightarrow> reply \<Rightarrow> TeraFileSyncPlugin \<times> (load_pc, jsval) step" where
  "loadStateFromFile_resume st pc r =
     (case pc of
        LoadFileName k \<Rightarrow> load_after_name (getStorageFileName_resume st k r)
      | LoadAwaitRead \<Rightarrow>
          (case r of
             Rejected e \<Rightarrow> load_catch st e
           | Resolved fileContent \<Rightarrow>
               if \<not> truthy fileContent then (st, Done JNull)
               else (updateSaveStatus st SAVED, Done fileContent)))"

text \<open>
  \<open>saveStateToFile\<close>; \<open>save_catch\<close> is its catch block and \<open>save_finally\<close> its finally
  block, entered with the value the try or the catch block returns.
\<close>

datatype save_pc =
    SaveAwaitProgress jsval string
  | SaveFileName jsval fn_pc
  | SaveAwaitWrite
  | SaveAwaitHide bool

definition save_finally :: "TeraFileSyncPlugin \<Rightarrow> bool \<Rightarrow> TeraFileSyncPlugin \<times> (save_pc, bool) step" where
  "save_finally st result =
     (let st' = st\<lparr> saveInProgress := False \<rparr> in
      case vueInstance st' of
        None \<Rightarrow> (st', Done result)
      | Some vi \<Rightarrow>
          (case tera vi of
             None \<Rightarrow> (st', Throw TypeError)
           | Some t \<Rightarrow>
               if uiProgress_fn t then (st', Await UiProgressHide (SaveAwaitHide result))
               else (st', Throw TypeError)))"

definition save_catch :: "TeraFileSyncPlugin \<Rightarrow> string \<Rightarrow> TeraFileSyncPlugin \<times> (save_pc, bool) step" where
  "save_catch st e =
     save_finally (updateSaveStatus (logError st ''Failed to save state to file'') UNSAVED) False"

definition save_write :: "TeraFileSyncPlugin \<Rightarrow> jsval \<Rightarrow> string \<Rightarrow> TeraFileSyncPlugin \<times> (save_pc, bool) step" where
  "save_write st state fileName =
     (if fileName = [] then save_catch st ''No fileName returned''
      else
        (let encodedFileName = btoa fileName;
             stateToSave = mapSetToObject state
         in case get_tera st of
              None \<Rightarrow> save_catch st TypeError
            | Some t \<Rightarrow>
                if setProjectFileContents_fn t
                then (st, Await (SetProjectFileContents encodedFileName stateToSave) SaveAwaitWrite)
                else save_catch st TypeError))"

definition save_after_name ::
  "jsval \<Rightarrow> TeraFileSyncPlugin \<times> (fn_pc, string) step \<Rightarrow> TeraFileSyncPlugin \<times> (save_pc, bool) step" where
  "save_after_name state res =
     (case res of
        (st, Await c k) \<Rightarrow> (st, Await c (SaveFileName state k))
      | (st, Throw e) \<Rightarrow> save_catch st e
      | (st, Done fileName) \<Rightarrow> save_write st state fileName)"

definition saveStateToFile_start ::
  "TeraFileSyncPlugin \<Rightarrow> jsval \<Rightarrow> string \<Rightarrow> TeraFileSyncPlugin \<times> (save_pc, bool) step" where
  "saveStateToFile_start st state nid =
     (if saveInProgress st then (st, Done False)
      else
        (let st1 = updateSaveStatus (st\<lparr> saveInProgress := True \<rparr>) SAVING in
         case vueInstance st1 of
           None \<Rightarrow> save_catch st1 ''Vue instance is null''
         | Some vi \<Rightarrow>
             (case tera vi of
                None \<Rightarrow> save_catch st1 TypeError
              | Some t \<Rightarrow>
                  if uiProgress_fn t
                  then (st1, Await (UiProgressShow ''Saving tool data'') (SaveAwaitProgress state nid))
                  else save_catch st1 TypeError)))"

definition saveStateToFile_resume ::
  "TeraFileSyncPlugin \<Rightarrow> save_pc \<Rightarrow> reply \<Rightarrow> TeraFileSyncPlugin \<times> (save_pc, bool) step" where
  "saveStateToFile_resume st pc r =
     (case pc of
        SaveAwaitProgress state nid \<Rightarrow>
          (case r of
             Rejected e \<Rightarrow> save_catch st e
           | Resolved _ \<Rightarrow> save_after_name state (getStorageFileName_start st nid))
      | SaveFileName state k \<Rightarrow> save_after_name state (getStorageFileName_resume st k r)
      | SaveAwaitWrite \<Rightarrow>
          (case r of
             Rejected e \<Rightarrow> save_catch st e
           | Resolved _ \<Rightarrow> save_finally (updateSaveStatus st SAVED) True)
      | SaveAwaitHide result \<Rightarrow>
          (case r of
             Rejected e \<Rightarrow> (st, Throw e)
           | Resolved _ \<Rightarrow> (st, Done result)))"

text \<open>
  \<open>initialize\<close> and \<open>setTeraReady\<close>. The environment says whether \<open>window.__pinia\<close>
  exists, what \<open>nanoid()\<close> returns, and how many change notifications the patching of the
  stores in \<open>initializeStores\<close> sets off. \<open>setupStateChangeTracking\<close> only subscribes;
  the subscriber itself is \<open>on_store_change\<close>.
\<close>

record environment =
  pinia :: bool
  nanoid :: string
  patch_notifications :: nat

datatype init_pc = InitAwaitShow | InitLoad load_pc | InitAwaitHide

definition createSyncStatusStore :: "TeraFileSyncPlugin \<Rightarrow> environment \<Rightarrow> TeraFileSyncPlugin" where
  "createSyncStatusStore st env =
     (if pinia env
      then st\<lparr> syncStatusStore := Some (case syncStatusStore st of None \<Rightarrow> SAVED | Some s \<Rightarrow> s) \<rparr>
      else st)"

definition initializeStores :: "TeraFileSyncPlugin \<Rightarrow> environment \<Rightarrow> jsval \<Rightarrow> TeraFileSyncPlugin" where
  "initializeStores st env loadedState =
     (if \<not> truthy loadedState then st
      else if \<not> pinia env then st
      else (on_store_change ^^ patch_notifications env) st)"

definition init_post :: "TeraFileSyncPlugin \<Rightarrow> TeraFileSyncPlugin \<times> (init_pc, unit) step" where
  "init_post st =
     ((if showInitialAlert (config st) \<and> \<not> hasShownInitialAlert st
       then st\<lparr> hasShownInitialAlert := True \<rparr> else st), Done ())"

definition init_catch :: "TeraFileSyncPlugin \<Rightarrow> TeraFileSyncPlugin \<times> (init_pc, unit) step" where
  "init_catch st = (logError st ''State initialization failed'', Done ())"

definition init_after_load ::
  "environment \<Rightarrow> TeraFileSyncPlugin \<Rightarrow> jsval \<Rightarrow> TeraFileSyncPlugin \<times> (init_pc, unit) step" where
  "init_after_load env st fileData =
     (let st1 = (if truthy fileData
                 then updateSaveStatus (initializeStores st env fileData) SAVED
                 else updateSaveStatus st UNSAVED);
          st2 = st1\<lparr> initialized := True \<rparr>
      in case get_tera st2 of
           None \<Rightarrow> init_catch st2
         | Some t \<Rightarrow>
             if uiProgress_fn t then (st2, Await UiProgressHide InitAwaitHide)
             else init_post st2)"

definition init_load ::
  "environment \<Rightarrow> TeraFileSyncPlugin \<times> (load_pc, jsval) step \<Rightarrow> TeraFileSyncPlugin \<times> (init_pc, unit) step" where
  "init_load env res =
     (case res of
        (st, Await c k) \<Rightarrow> (st, Await c (InitLoad k))
      | (st, Throw e) \<Rightarrow> init_catch st
      | (st, Done fileData) \<Rightarrow> init_after_load env st fileData)"

definition init_try :: "environment \<Rightarrow> TeraFileSyncPlugin \<Rightarrow> TeraFileSyncPlugin \<times> (init_pc, unit) step" where
  "init_try env st = init_load env (loadStateFromFile_start (createSyncStatusStore st env) (nanoid env))"

definition initialize_start :: "environment \<Rightarrow> TeraFileSyncPlugin \<Rightarrow> TeraFileSyncPlugin \<times> (init_pc, unit) step" where
  "initialize_start env st =
     (if \<not> teraReady st then (st, Done ())
      else case get_tera st of
             None \<Rightarrow> (st, Done ())
           | Some t \<Rightarrow>
               if \<not> uiProgress_fn t then init_try env st
               else (st, Await (UiProgressShow ''Loading tool data'') InitAwaitShow))"

definition initialize_resume ::
  "environment \<Rightarrow> TeraFileSyncPlugin \<Rightarrow> init_pc \<Rightarrow> reply \<Rightarrow> TeraFileSyncPlugin \<times> (init_pc, unit) step" where
  "initialize_resume env st pc r =
     (case pc of
        InitAwaitShow \<Rightarrow>
          (case r of Rejected e \<Rightarrow> (st, Throw e) | Resolved _ \<Rightarrow> init_try env st)
      | InitLoad k \<Rightarrow> init_load env (loadStateFromFile_resume st k r)
      | InitAwaitHide \<Rightarrow>
          (case r of Rejected e \<Rightarrow> init_catch st | Resolved _ \<Rightarrow> init_post st))"

definition setTeraReady_start :: "environment \<Rightarrow> TeraFileSyncPlugin \<Rightarrow> TeraFileSyncPlugin \<times> (init_pc, unit) step" where
  "setTeraReady_start env st =
     (case validateVueInstance (vueInstance st) of
        Some e \<Rightarrow> (st, Throw e)
      | None \<Rightarrow> initialize_start env (st\<lparr> teraReady := True \<rparr>))"

section \<open>Running a call against a host\<close>

text \<open>
  \<open>drive\<close> runs a call against a list of replies, one for each await, and returns the last
  step reached together with the host calls made; when the replies run out the call is left
  waiting. \<open>drive_events\<close> runs a save through its try block against replies and
  store-change notifications in any order, and stops where the try block is left.
\<close>

fun drive ::
  "(TeraFileSyncPlugin \<Rightarrow> 'k \<Rightarrow> reply \<Rightarrow> TeraFileSyncPlugin \<times> ('k, 'r) step)
   \<Rightarrow> TeraFileSyncPlugin \<times> ('k, 'r) step \<Rightarrow> reply list
   \<Rightarrow> (TeraFileSyncPlugin \<times> ('k, 'r) step) \<times> host_call list" where
  "drive resume (st, Await c k) (r # rs) =
     (let (res, cs) = drive resume (resume st k r) rs in (res, c # cs))"
| "drive resume (st, Await c k) [] = ((st, Await c k), [c])"
| "drive resume (st, Done x) rs = ((st, Done x), [])"
| "drive resume (st, Throw e) rs = ((st, Throw e), [])"

fun finished :: "('k, 'r) step \<Rightarrow> bool" where
  "finished (Await c k) = False"
| "finished (Done x) = True"
| "finished (Throw e) = True"

datatype event = Reply reply | StoreChange

fun save_in_try :: "save_pc \<Rightarrow> bool" where
  "save_in_try (SaveAwaitHide result) = False"
| "save_in_try pc = True"

fun drive_events ::
  "TeraFileSyncPlugin \<times> (save_pc, bool) step \<Rightarrow> event list \<Rightarrow> TeraFileSyncPlugin \<times> (save_pc, bool) step" where
  "drive_events (st, Await c pc) (e # es) =
     (if save_in_try pc then
        (case e of
           StoreChange \<Rightarrow> drive_events (on_store_change st, Await c pc) es
         | Reply r \<Rightarrow> drive_events (saveStateToFile_resume st pc r) es)
      else (st, Await c pc))"
| "drive_events res es = res"

text \<open>
  Modelled from the spec: the host of section 4.2, which creates the backing file and persists
  the new identifier into the project metadata under the storage key. \<open>host_persist\<close> is the
  effect of a call on the project descriptor the plugin sees (the path \<open>temp.key\<close> addresses
  the entry \<open>key\<close> of \<open>temp\<close>), \<open>host_reply\<close> the reply (the user has identity
  \<open>uid\<close>), and \<open>run_host\<close> runs a call against this host for at most \<open>n\<close> awaits.
\<close>

definition host_persist :: "host_call \<Rightarrow> TeraFileSyncPlugin \<Rightarrow> TeraFileSyncPlugin" where
  "host_persist c st =
     (case c of
        SetProjectState path v \<Rightarrow>
          (case get_project st of
             None \<Rightarrow> st
           | Some p \<Rightarrow>
               (case project_temp p of
                  None \<Rightarrow> st
                | Some tmp \<Rightarrow>
                    if take 5 path = ''temp.''
                    then set_project st (p\<lparr> project_temp := Some (obj_set tmp (drop 5 path) (JStr v)) \<rparr>)
                    else st))
      | _ \<Rightarrow> st)"

definition host_reply :: "string \<Rightarrow> host_call \<Rightarrow> reply" where
  "host_reply uid c =
     (case c of
        GetUser \<Rightarrow> Resolved (JObj [(''id'', JStr uid)])
      | _ \<Rightarrow> Resolved JUndefined)"

fun run_host ::
  "string \<Rightarrow> (TeraFileSyncPlugin \<Rightarrow> 'k \<Rightarrow> reply \<Rightarrow> TeraFileSyncPlugin \<times> ('k, 'r) step)
   \<Rightarrow> TeraFileSyncPlugin \<times> ('k, 'r) step \<Rightarrow> nat
   \<Rightarrow> (TeraFileSyncPlugin \<times> ('k, 'r) step) \<times> host_call list" where
  "run_host uid resume (st, Await c k) (Suc n) =
     (let (res, cs) = run_host uid resume (resume (host_persist c st) k (host_reply uid c)) n
      in (res, c # cs))"
| "run_host uid resume res n = (res, [])"

fun is_create :: "host_call \<Rightarrow> bool" where
  "is_create (CreateProjectFile name) = True"
| "is_create c = False"

section \<open>A concrete plugin and host binding\<close>

text \<open>
  The plugin as the constructor leaves it for the key prefix \<open>demo\<close>, a host binding with
  every capability and a project \<open>p1\<close> without metadata yet, and the states reached from
  there by binding the host, marking it ready or creating the status store.
\<close>

definition demo_config :: TeraPluginConfig where
  "demo_config = \<lparr> keyPrefix = ''demo'', isSeparateStateForEachUser = False,
     autoSaveIntervalMinutes = 0, showInitialAlert = True, enableSaveHotkey = True \<rparr>"

definition demo_plugin :: TeraFileSyncPlugin where
  "demo_plugin = \<lparr> config = demo_config, initialized = False, teraReady = False, vueInstance = None,
     userId = None, saveInProgress = False, saveStatus = SAVED,
     hasShownInitialAlert = False, syncStatusStore = None, errorLog = [] \<rparr>"

definition demo_tera :: TeraInstance where
  "demo_tera = \<lparr> getUser_fn = True, getProjectFileContents_fn = True, setProjectFileContents_fn = True,
     uiProgress_fn = True, createProjectFile_fn = True, setProjectState_fn = True,
     project = Some \<lparr> project_id = Some ''p1'', project_temp = None \<rparr> \<rparr>"

definition demo_vue :: VueInstance where
  "demo_vue = \<lparr> tera = Some demo_tera \<rparr>"

definition demo_env :: environment where
  "demo_env = \<lparr> pinia = True, nanoid = ''n1'', patch_notifications = 0 \<rparr>"

definition demo_state :: jsval where
  "demo_state = JObj [(''a'', JObj [(''x'', JNum 1)]), (''b'', JObj [(''y'', JArr [JNum 1, JNum 2])])]"

definition demo_bound :: TeraFileSyncPlugin where
  "demo_bound = demo_plugin\<lparr> vueInstance := Some demo_vue \<rparr>"

definition demo_user_plugin :: TeraFileSyncPlugin where
  "demo_user_plugin = demo_plugin\<lparr> config := demo_config\<lparr> isSeparateStateForEachUser := True \<rparr>,
     vueInstance := Some demo_vue \<rparr>"

definition demo_tracked :: TeraFileSyncPlugin where
  "demo_tracked = demo_bound\<lparr> syncStatusStore := Some SAVED \<rparr>"

definition demo_ready :: TeraFileSyncPlugin where
  "demo_ready = demo_bound\<lparr> teraReady := True \<rparr>"

definition demo_env_no_pinia :: environment where
  "demo_env_no_pinia = demo_env\<lparr> pinia := False \<rparr>"

section \<open>Auxiliary notions for the proofs\<close>

text \<open>
  \<open>frame\<close> relates two states that agree on everything the save guard and the status
  tracker depend on; \<open>progress_available\<close> says that the host binding offers
  \<open>uiProgress\<close>. The ranks bound the number of awaits a call still has before it. For a
  save, \<open>settled\<close> is the status a step of the call goes with: Saving inside the try block,
  Saved or Unsaved by the outcome once the try block is left.
\<close>

definition host_shape :: "TeraFileSyncPlugin \<Rightarrow> bool option option" where
  "host_shape st = map_option (\<lambda>vi. map_option uiProgress_fn (tera vi)) (vueInstance st)"

definition frame :: "TeraFileSyncPlugin \<Rightarrow> TeraFileSyncPlugin \<Rightarrow> bool" where
  "frame st st' =
     (saveStatus st' = saveStatus st \<and> syncStatusStore st' = syncStatusStore st
      \<and> saveInProgress st' = saveInProgress st \<and> config st' = config st
      \<and> host_shape st' = host_shape st)"

definition fn_rank :: "fn_pc \<Rightarrow> nat" where
  "fn_rank pc = (case pc of FnAwaitUser nid \<Rightarrow> 3 | FnAwaitCreate key name \<Rightarrow> 2 | FnAwaitSetState name \<Rightarrow> 1)"


definition save_rank :: "save_pc \<Rightarrow> nat" where
  "save_rank pc =
     (case pc of
        SaveAwaitProgress state nid \<Rightarrow> 6
      | SaveFileName state k \<Rightarrow> 2 + fn_rank k
      | SaveAwaitWrite \<Rightarrow> 2
      | SaveAwaitHide result \<Rightarrow> 1)"

definition progress_available :: "TeraFileSyncPlugin \<Rightarrow> bool" where
  "progress_available st = (host_shape st = Some (Some True))"

fun settled :: "SAVE_STATUS \<Rightarrow> (save_pc, bool) step \<Rightarrow> bool" where
  "settled status (Await c (SaveAwaitHide result)) = (status = (if result then SAVED else UNSAVED))"
| "settled status (Await c pc) = (status = SAVING)"
| "settled status (Done result) = (status = (if result then SAVED else UNSAVED))"
| "settled status (Throw e) = (status = UNSAVED)"

definition quiet :: "TeraFileSyncPlugin \<Rightarrow> TeraFileSyncPlugin \<Rightarrow> bool" where
  "quiet st st' = (syncStatusStore st' = None \<and> saveStatus st' = saveStatus st)"

text \<open>
  A step that leaves the try block with the progress call available: the guard is cleared and
  the call awaits the dismissal of the progress indicator.
\<close>

definition leaving :: "TeraFileSyncPlugin \<times> (save_pc, bool) step \<Rightarrow> bool" where
  "leaving res = (\<not> saveInProgress (fst res) \<and> (\<exists>b. snd res = Await UiProgressHide (SaveAwaitHide b)))"

definition in_flight :: "TeraFileSyncPlugin \<times> (save_pc, bool) step \<Rightarrow> bool" where
  "in_flight res = (saveInProgress (fst res) \<and> (\<exists>c pc. snd res = Await c pc \<and> save_in_try pc))"

text \<open>The state of a save in its try block, with the status store present.\<close>

definition saving :: "TeraFileSyncPlugin \<times> (save_pc, bool) step \<Rightarrow> bool" where
  "saving res = (in_flight res \<and> saveStatus (fst res) = SAVING)"

definition resolved :: "TeraFileSyncPlugin \<times> (save_pc, bool) step \<Rightarrow> bool" where
  "resolved res = (leaving res \<and> settled (saveStatus (fst res)) (snd res))"

definition tracked :: "TeraFileSyncPlugin \<times> (save_pc, bool) step \<Rightarrow> bool" where
  "tracked res = (syncStatusStore (fst res) \<noteq> None \<and> progress_available (fst res)
      \<and> (saving res \<or> resolved res))"

text \<open>
  The project metadata hold a file name under the key, giving the locator; and the key is the
  one \<open>getStorageKey\<close> arrives at from this state with the host's user \<open>uid\<close>.
\<close>

definition located :: "TeraFileSyncPlugin \<Rightarrow> string \<Rightarrow> string \<Rightarrow> bool" where
  "located st key loc =
     (\<exists>t p tmp name. get_tera st = Some t \<and> project t = Some p \<and> \<not> falsy_string (project_id p)
        \<and> project_temp p = Some tmp \<and> map_of tmp key = Some (JStr name) \<and> name \<noteq> []
        \<and> loc = template_string ''undefined'' (project_id p) @ ''/'' @ name)"

definition key_stable :: "string \<Rightarrow> TeraFileSyncPlugin \<Rightarrow> string \<Rightarrow> bool" where
  "key_stable uid st key =
     (if isSeparateStateForEachUser (config st)
      then (\<exists>u. userId st = Some u \<and> key = keyPrefix (config st) @ ''-'' @ u
              \<and> (u = [] \<longrightarrow> uid = [] \<and> (\<exists>t. get_tera st = Some t \<and> getUser_fn t)))
      else key = keyPrefix (config st))"

section \<open>Properties of the codec\<close>



lemma keys_insert_new [simp]: "fst ` set (insert_new ps k v) = insert k (fst ` set ps)"
proof (induction ps)
  case Nil
  show ?case by simp
next
  case (Cons p ps)
  then show ?case by (cases p) (simp add: insert_commute)
qed





lemma map_fst_update:
  "map fst (map (\<lambda>p. if fst p = k then (k, v) else p) ps) = map fst ps"
  by (induction ps) auto

lemma keys_obj_set [simp]: "fst ` set (obj_set ps k v) = insert k (fst ` set ps)"
proof (cases "k \<in> fst ` set ps")
  case True
  have "fst ` set (map (\<lambda>p. if fst p = k then (k, v) else p) ps) = fst ` set ps"
    using map_fst_update [of k v ps] by (metis set_map)
  with True show ?thesis by (simp add: obj_set_def insert_absorb del: set_map)
next
  case False
  then show ?thesis by (simp add: obj_set_def)
qed



lemma obj_assign_Cons [simp]:
  "obj_assign init ((k, v) # kvs) = obj_assign (obj_set init k v) kvs"
  by (simp add: obj_assign_def)

lemma obj_assign_Nil [simp]: "obj_assign init [] = init"
  by (simp add: obj_assign_def)


lemma keys_obj_assign [simp]: "fst ` set (obj_assign init kvs) = fst ` set init \<union> fst ` set kvs"
proof (induction kvs arbitrary: init)
  case Nil
  show ?case by simp
next
  case (Cons p kvs)
  then show ?case by (cases p) auto
qed











lemmas js_eval = obj_assign_def obj_set_def has_key_def new_Set_def set_add_def comes_before_def
  is_array_index_def is_digit_def show_int_def show_nat.simps digit_char_def dec_val_def js_ordered_def



section \<open>Properties of the plugin\<close>

lemmas plugin_eval =
  getStorageKey_start_def getStorageKey_resume_def fn_finish_def fn_create_def fn_lookup_def
  fn_after_key_def getStorageFileName_start_def getStorageFileName_resume_def
  load_catch_def load_read_def load_after_name_def loadStateFromFile_start_def loadStateFromFile_resume_def
  save_finally_def save_catch_def save_write_def save_after_name_def
  saveStateToFile_start_def saveStateToFile_resume_def
  createSyncStatusStore_def initializeStores_def init_post_def init_catch_def init_after_load_def
  init_load_def init_try_def initialize_start_def initialize_resume_def setTeraReady_start_def
  validateVueInstance_def updateSaveStatus_def on_store_change_def logError_def
  get_tera_def get_project_def set_project_def falsy_string_def template_string_def user_id_def
  host_persist_def host_reply_def getSaveStatus_def

lemmas demo_eval =
  demo_config_def demo_plugin_def demo_tera_def demo_vue_def demo_env_def demo_state_def demo_bound_def
  demo_user_plugin_def demo_tracked_def demo_ready_def demo_env_no_pinia_def

subsection \<open>What resolving the file name leaves alone\<close>

lemma frame_refl [simp]: "frame st st"
  by (simp add: frame_def)

lemma frame_trans: "frame a b \<Longrightarrow> frame b c \<Longrightarrow> frame a c"
  by (simp add: frame_def)

lemma frame_logError [simp]: "frame st (logError st c)"
  by (simp add: frame_def logError_def host_shape_def)

lemma frame_set_project:
  "frame st (set_project st p)"
  by (cases "vueInstance st")
     (auto simp: frame_def set_project_def host_shape_def option.map_comp comp_def split: option.splits)

lemma frame_getStorageKey_start: "frame st (fst (getStorageKey_start st))"
  by (simp add: getStorageKey_start_def split: option.splits)

lemma frame_getStorageKey_resume: "frame st (fst (getStorageKey_resume st pc r))"
  by (auto simp: getStorageKey_resume_def frame_def host_shape_def logError_def
      split: reply.splits option.splits)

lemma frame_fn_finish: "frame st (fst (fn_finish st v))"
  by (simp add: fn_finish_def split: jsval.splits option.splits)

lemma frame_fn_create: "frame st (fst (fn_create st key nid))"
  by (simp add: fn_create_def Let_def split: option.splits)

lemma frame_fn_lookup: "frame st (fst (fn_lookup st key nid))"
  by (simp add: fn_lookup_def frame_fn_finish frame_fn_create split: option.splits)

lemma frame_fn_after_key: "frame st (fst res) \<Longrightarrow> frame st (fst (fn_after_key nid res))"
  by (cases res; cases "snd res")
     (auto simp: fn_after_key_def intro: frame_trans frame_fn_lookup)

lemma frame_getStorageFileName_start: "frame st (fst (getStorageFileName_start st nid))"
  by (auto simp: getStorageFileName_start_def Let_def frame_set_project
      intro!: frame_fn_after_key intro: frame_trans frame_getStorageKey_start frame_set_project
      split: option.splits)

lemma frame_getStorageFileName_resume: "frame st (fst (getStorageFileName_resume st pc r))"
  by (auto simp: getStorageFileName_resume_def frame_fn_finish frame_getStorageKey_resume
      intro!: frame_fn_after_key split: fn_pc.splits reply.splits option.splits)

subsection \<open>Every step of resolving the file name uses up an await\<close>

lemma fn_finish_no_await: "snd (fn_finish st v) \<noteq> Await c k"
  by (simp add: fn_finish_def split: jsval.splits option.splits)

lemma fn_lookup_rank: "fn_lookup st key nid = (st', Await c k) \<Longrightarrow> fn_rank k \<le> 2"
  using fn_finish_no_await [of st]
  by (auto simp: fn_lookup_def fn_create_def fn_rank_def Let_def
      split: option.splits if_splits) (metis snd_conv)+

lemma getStorageFileName_start_rank:
  "getStorageFileName_start st nid = (st', Await c k) \<Longrightarrow> fn_rank k \<le> 3"
  by (auto simp: getStorageFileName_start_def fn_after_key_def Let_def fn_rank_def
      split: option.splits if_splits prod.splits step.splits dest: fn_lookup_rank)

lemma getStorageFileName_resume_rank:
  "getStorageFileName_resume st pc r = (st', Await c k) \<Longrightarrow> fn_rank k < fn_rank pc"
  using fn_finish_no_await [of st]
  by (auto simp: getStorageFileName_resume_def fn_after_key_def getStorageKey_resume_def fn_rank_def
      split: fn_pc.splits reply.splits option.splits if_splits prod.splits step.splits
      dest!: fn_lookup_rank) (metis snd_conv)+

subsection \<open>Runs\<close>

lemma drive_finishes:
  assumes dec: "\<And>st k r st' c k'. resume st k r = (st', Await c k') \<Longrightarrow> rank k' < rank k"
    and pos: "\<And>k. 0 < rank k"
  shows "(\<And>c k. s = Await c k \<Longrightarrow> rank k \<le> length rs)
         \<Longrightarrow> finished (snd (fst (drive resume (st, s) rs)))"
proof (induction rs arbitrary: st s)
  case Nil
  show ?case
  proof (cases s)
    case (Await c k)
    with Nil have "rank k \<le> 0" by simp
    with pos [of k] show ?thesis by simp
  qed auto
next
  case (Cons r rs)
  show ?case
  proof (cases s)
    case (Await c k)
    obtain st' s' where res: "resume st k r = (st', s')" by (cases "resume st k r")
    have "finished (snd (fst (drive resume (st', s') rs)))"
    proof (rule Cons.IH)
      fix c' k' assume "s' = Await c' k'"
      with res dec have "rank k' < rank k" by blast
      moreover have "rank k \<le> length (r # rs)" using Cons.prems Await by blast
      ultimately show "rank k' \<le> length rs" by simp
    qed
    then show ?thesis by (simp add: Await res case_prod_beta)
  qed auto
qed

lemma drive_invariant:
  assumes step: "\<And>st k r. P st \<Longrightarrow> P (fst (resume st k r))"
  shows "P st \<Longrightarrow> P (fst (fst (drive resume (st, s) rs)))"
proof (induction rs arbitrary: st s)
  case Nil
  then show ?case by (cases s) auto
next
  case (Cons r rs)
  show ?case
  proof (cases s)
    case (Await c k)
    obtain st' s' where res: "resume st k r = (st', s')" by (cases "resume st k r")
    with step [OF Cons.prems, of k r] have "P st'" by simp
    from Cons.IH [OF this, of s'] show ?thesis by (simp add: Await res case_prod_beta)
  qed (use Cons.prems in auto)
qed


subsection \<open>Host binding and storage key\<close>

lemma demo_plugin_constructed: "new_TeraFileSyncPlugin demo_config = Inr demo_plugin"
  by (simp add: new_TeraFileSyncPlugin_def validateConfig_def demo_config_def demo_plugin_def)

text \<open>
  C9 (as amended). setTeraReady first validates the host binding: when the binding is missing or
  lacks a required capability, the call fails with the validation error, the plugin is left as
  it was (not marked ready) and no host call is made. The skip without an error belongs to
  initialize itself, when the plugin is not marked ready or has no host binding.
\<close>

theorem setTeraReady_requires_binding:
  "(validateVueInstance (vueInstance st) = Some e \<longrightarrow> setTeraReady_start env st = (st, Throw e))
   \<and> (\<not> teraReady st \<or> get_tera st = None \<longrightarrow> initialize_start env st = (st, Done ()))"
  by (auto simp: setTeraReady_start_def initialize_start_def)

theorem setTeraReady_requires_binding_witness:
  "validateVueInstance (vueInstance demo_plugin) = Some ''Vue instance is required''
   \<and> setTeraReady_start demo_env demo_plugin = (demo_plugin, Throw ''Vue instance is required'')
   \<and> \<not> teraReady demo_plugin
   \<and> initialize_start demo_env demo_plugin = (demo_plugin, Done ())"
  using setTeraReady_requires_binding [of demo_plugin "''Vue instance is required''" demo_env]
  by (simp add: validateVueInstance_def demo_plugin_def)

text \<open>
  Counterexample for C9 as stated: on a freshly constructed plugin, with no host binding
  supplied, setTeraReady raises an error to its caller.
\<close>

theorem setTeraReady_unbound_counterexample:
  "new_TeraFileSyncPlugin demo_config = Inr demo_plugin
   \<and> setTeraReady_start demo_env demo_plugin = (demo_plugin, Throw ''Vue instance is required'')"
  by (simp add: new_TeraFileSyncPlugin_def validateConfig_def demo_config_def demo_plugin_def
      setTeraReady_start_def validateVueInstance_def)

text \<open>
  C8 (as amended). With per-user state disabled getStorageKey returns the key prefix and makes
  no host call. With it enabled and no identity cached, the first call looks the user up and
  returns prefix, dash, user id; a later call reuses the cached identity without a host call
  when that identity is a non-empty string; a rejected lookup is thrown to the caller.
\<close>

theorem getStorageKey_cached:
  "(\<not> isSeparateStateForEachUser (config st) \<longrightarrow>
      getStorageKey_start st = (st, Done (keyPrefix (config st))))
   \<and> (isSeparateStateForEachUser (config st) \<and> userId st = None \<and> get_tera st = Some t \<and> getUser_fn t \<longrightarrow>
        getStorageKey_start st = (st, Await GetUser KeyAwaitUser)
        \<and> getStorageKey_resume st KeyAwaitUser (Resolved (JObj [(''id'', JStr u)]))
            = (st\<lparr> userId := Some u \<rparr>, Done (keyPrefix (config st) @ ''-'' @ u))
        \<and> (u \<noteq> [] \<longrightarrow>
              getStorageKey_start (st\<lparr> userId := Some u \<rparr>)
                = (st\<lparr> userId := Some u \<rparr>, Done (keyPrefix (config st) @ ''-'' @ u)))
        \<and> snd (getStorageKey_resume st KeyAwaitUser (Rejected e)) = Throw e)"
  by (auto simp: getStorageKey_start_def getStorageKey_resume_def falsy_string_def template_string_def
      user_id_def get_tera_def split: option.splits)

theorem getStorageKey_cached_witness:
  "\<not> isSeparateStateForEachUser (config demo_plugin)
   \<and> getStorageKey_start demo_plugin = (demo_plugin, Done ''demo'')
   \<and> isSeparateStateForEachUser (config demo_user_plugin) \<and> userId demo_user_plugin = None
   \<and> get_tera demo_user_plugin = Some demo_tera \<and> getUser_fn demo_tera
   \<and> getStorageKey_start demo_user_plugin = (demo_user_plugin, Await GetUser KeyAwaitUser)
   \<and> getStorageKey_resume demo_user_plugin KeyAwaitUser (Resolved (JObj [(''id'', JStr ''u7'')]))
        = (demo_user_plugin\<lparr> userId := Some ''u7'' \<rparr>, Done ''demo-u7'')
   \<and> getStorageKey_start (demo_user_plugin\<lparr> userId := Some ''u7'' \<rparr>)
        = (demo_user_plugin\<lparr> userId := Some ''u7'' \<rparr>, Done ''demo-u7'')
   \<and> snd (getStorageKey_resume demo_user_plugin KeyAwaitUser (Rejected ''no identity'')) = Throw ''no identity''"
  using getStorageKey_cached [of demo_plugin demo_tera "''u7''" "''no identity''"]
    getStorageKey_cached [of demo_user_plugin demo_tera "''u7''" "''no identity''"]
  by (simp add: demo_user_plugin_def demo_plugin_def demo_config_def get_tera_def demo_vue_def demo_tera_def)

text \<open>
  Counterexample for C8 as stated: when the host supplies the empty string as identity, the
  cached identity is falsy and the next call looks the user up again.
\<close>

theorem getStorageKey_cached_counterexample:
  "getStorageKey_resume demo_user_plugin KeyAwaitUser (Resolved (JObj [(''id'', JStr '''')]))
     = (demo_user_plugin\<lparr> userId := Some '''' \<rparr>, Done ''demo-'')
   \<and> getStorageKey_start (demo_user_plugin\<lparr> userId := Some '''' \<rparr>)
     = (demo_user_plugin\<lparr> userId := Some '''' \<rparr>, Await GetUser KeyAwaitUser)"
  by (simp add: getStorageKey_start_def getStorageKey_resume_def falsy_string_def template_string_def
      user_id_def get_tera_def demo_user_plugin_def demo_plugin_def demo_config_def demo_vue_def demo_tera_def)

subsection \<open>Loading\<close>


lemma frame_load_catch: "frame st (fst (load_catch st e))"
  by (simp add: load_catch_def)


lemma frame_load_read: "frame st (fst (load_read st f))"
  by (simp add: load_read_def Let_def frame_load_catch split: option.splits)



lemma frame_load_after_name: "frame st (fst res) \<Longrightarrow> frame st (fst (load_after_name res))"
  by (cases res; cases "snd res")
     (auto simp: load_after_name_def intro: frame_trans frame_load_catch frame_load_read)



lemma frame_loadStateFromFile_start: "frame st (fst (loadStateFromFile_start st nid))"
  by (simp add: loadStateFromFile_start_def frame_load_after_name frame_getStorageFileName_start)

lemma fn_rank_pos: "0 < fn_rank k"
  by (simp add: fn_rank_def split: fn_pc.splits)







subsection \<open>Without a status store\<close>

lemma updateSaveStatus_no_store: "syncStatusStore st = None \<Longrightarrow> updateSaveStatus st status = st"
  by (simp add: updateSaveStatus_def)

lemma quiet_refl: "syncStatusStore st = None \<Longrightarrow> quiet st st"
  by (simp add: quiet_def)

lemma quiet_trans: "quiet a b \<Longrightarrow> quiet b c \<Longrightarrow> quiet a c"
  by (simp add: quiet_def)

lemma quiet_frame: "syncStatusStore st = None \<Longrightarrow> frame st st' \<Longrightarrow> quiet st st'"
  by (simp add: quiet_def frame_def)

lemma quiet_store: "quiet a b \<Longrightarrow> syncStatusStore b = None"
  by (simp add: quiet_def)

lemma quiet_load_resume:
  "syncStatusStore st = None \<Longrightarrow> quiet st (fst (loadStateFromFile_resume st pc r))"
  by (auto simp: loadStateFromFile_resume_def updateSaveStatus_no_store quiet_refl
      intro!: quiet_frame frame_load_after_name frame_getStorageFileName_resume frame_load_catch
      split: load_pc.splits reply.splits)

lemma quiet_save_finally:
  "syncStatusStore st = None \<Longrightarrow> quiet st (fst (save_finally st b))"
  by (simp add: save_finally_def quiet_def Let_def split: option.splits)

lemma quiet_save_catch:
  "syncStatusStore st = None \<Longrightarrow> quiet st (fst (save_catch st e))"
  using quiet_save_finally [of "logError st ''Failed to save state to file''" False]
  by (simp add: save_catch_def updateSaveStatus_no_store logError_def quiet_def)

lemma quiet_save_write:
  "syncStatusStore st = None \<Longrightarrow> quiet st (fst (save_write st state f))"
  by (simp add: save_write_def Let_def quiet_save_catch quiet_refl split: option.splits)

lemma quiet_save_after_name:
  assumes "syncStatusStore st = None" and "frame st (fst res)"
  shows "quiet st (fst (save_after_name state res))"
proof -
  have q: "quiet st (fst res)" using assms by (rule quiet_frame)
  then have n: "syncStatusStore (fst res) = None" by (rule quiet_store)
  show ?thesis
    by (cases res; cases "snd res")
       (use q n in \<open>auto simp: save_after_name_def intro: quiet_trans quiet_save_catch quiet_save_write\<close>)
qed

lemma quiet_save_resume:
  "syncStatusStore st = None \<Longrightarrow> quiet st (fst (saveStateToFile_resume st pc r))"
  by (auto simp: saveStateToFile_resume_def updateSaveStatus_no_store quiet_refl
      intro!: quiet_save_after_name quiet_save_catch quiet_save_finally
        frame_getStorageFileName_start frame_getStorageFileName_resume
      split: save_pc.splits reply.splits)

lemma quiet_save_start:
  assumes "syncStatusStore st = None"
  shows "quiet st (fst (saveStateToFile_start st state nid))"
proof (cases "saveInProgress st")
  case True
  with assms show ?thesis by (simp add: saveStateToFile_start_def quiet_refl)
next
  case False
  let ?st1 = "st\<lparr> saveInProgress := True \<rparr>"
  have n: "syncStatusStore ?st1 = None" and q: "quiet st ?st1"
    using assms by (simp_all add: quiet_def)
  have "quiet ?st1 (fst (saveStateToFile_start st state nid))"
    using False n quiet_save_catch [OF n]
    by (simp add: saveStateToFile_start_def updateSaveStatus_no_store Let_def quiet_refl
        split: option.splits)
  with q show ?thesis by (rule quiet_trans)
qed

text \<open>
  C10. While no status store has been created, a status transition is a no-op, and the
  internal status field is never assigned: a save, a load and a store-change notification all
  leave getSaveStatus at the value it had, whatever the host replies. For a plugin as the
  constructor leaves it that value is Saved.
\<close>

theorem status_frozen_without_store:
  "syncStatusStore st = None \<Longrightarrow>
     updateSaveStatus st status = st
     \<and> getSaveStatus (fst (fst (drive saveStateToFile_resume (saveStateToFile_start st state nid) rs)))
         = getSaveStatus st
     \<and> getSaveStatus (fst (fst (drive loadStateFromFile_resume (loadStateFromFile_start st nid) rs)))
         = getSaveStatus st
     \<and> getSaveStatus (on_store_change st) = getSaveStatus st"
proof -
  assume n: "syncStatusStore st = None"
  have step_save: "quiet st (fst (saveStateToFile_resume s k r))" if "quiet st s" for s k r
    using that quiet_save_resume [OF quiet_store [OF that]] by (rule quiet_trans)
  have step_load: "quiet st (fst (loadStateFromFile_resume s k r))" if "quiet st s" for s k r
    using that quiet_load_resume [OF quiet_store [OF that]] by (rule quiet_trans)
  have "quiet st (fst (fst (drive saveStateToFile_resume
      (fst (saveStateToFile_start st state nid), snd (saveStateToFile_start st state nid)) rs)))"
    by (rule drive_invariant [where P = "quiet st"]) (auto intro: step_save quiet_save_start [OF n])
  moreover have "quiet st (fst (fst (drive loadStateFromFile_resume
      (fst (loadStateFromFile_start st nid), snd (loadStateFromFile_start st nid)) rs)))"
    by (rule drive_invariant [where P = "quiet st"])
       (auto intro: step_load quiet_frame [OF n] frame_loadStateFromFile_start)
  ultimately show ?thesis
    using n by (simp add: quiet_def getSaveStatus_def updateSaveStatus_no_store on_store_change_def)
qed

theorem status_frozen_without_store_witness:
  "new_TeraFileSyncPlugin demo_config = Inr demo_plugin
   \<and> setVueInstance demo_plugin (Some demo_vue) = demo_bound
   \<and> syncStatusStore demo_bound = None
   \<and> getSaveStatus demo_bound = SAVED
   \<and> snd (fst (drive saveStateToFile_resume (saveStateToFile_start demo_bound demo_state ''n1'')
        [Resolved JUndefined, Resolved JUndefined, Resolved JUndefined, Rejected ''write failed'',
         Resolved JUndefined])) = Done False
   \<and> getSaveStatus (fst (fst (drive saveStateToFile_resume (saveStateToFile_start demo_bound demo_state ''n1'')
        [Resolved JUndefined, Resolved JUndefined, Resolved JUndefined, Rejected ''write failed'',
         Resolved JUndefined]))) = SAVED
   \<and> getSaveStatus (fst (fst (drive loadStateFromFile_resume (loadStateFromFile_start demo_bound ''n1'')
        [Resolved JUndefined, Resolved JUndefined, Resolved demo_state]))) = SAVED
   \<and> getSaveStatus (on_store_change demo_bound) = SAVED"
proof -
  have n: "syncStatusStore demo_bound = None" "getSaveStatus demo_bound = SAVED"
    "snd (fst (drive saveStateToFile_resume (saveStateToFile_start demo_bound demo_state ''n1'')
        [Resolved JUndefined, Resolved JUndefined, Resolved JUndefined, Rejected ''write failed'',
         Resolved JUndefined])) = Done False"
    "new_TeraFileSyncPlugin demo_config = Inr demo_plugin"
    "setVueInstance demo_plugin (Some demo_vue) = demo_bound"
    by (simp_all add: plugin_eval demo_eval Let_def new_TeraFileSyncPlugin_def validateConfig_def
        setVueInstance_def)
  show ?thesis
    using n
      status_frozen_without_store [OF n(1), of SAVING demo_state "''n1''"
        "[Resolved JUndefined, Resolved JUndefined, Resolved JUndefined, Rejected ''write failed'',
          Resolved JUndefined]"]
      status_frozen_without_store [OF n(1), of SAVING demo_state "''n1''"
        "[Resolved JUndefined, Resolved JUndefined, Resolved demo_state]"]
    by simp
qed

subsection \<open>Saving\<close>

lemma host_shape_updateSaveStatus [simp]: "host_shape (updateSaveStatus st s) = host_shape st"
  by (simp add: updateSaveStatus_def host_shape_def split: option.splits)

lemma host_shape_logError [simp]: "host_shape (logError st c) = host_shape st"
  by (simp add: logError_def host_shape_def)

lemma saveInProgress_updateSaveStatus [simp]:
  "saveInProgress (updateSaveStatus st s) = saveInProgress st"
  by (simp add: updateSaveStatus_def split: option.splits)

lemma saveInProgress_on_store_change [simp]: "saveInProgress (on_store_change st) = saveInProgress st"
  by (simp add: on_store_change_def)

lemma vueInstance_updateSaveStatus [simp]: "vueInstance (updateSaveStatus st s) = vueInstance st"
  by (simp add: updateSaveStatus_def split: option.splits)

lemma save_finally_cases:
  "(progress_available st \<and> save_finally st b = (st\<lparr> saveInProgress := False \<rparr>, Await UiProgressHide (SaveAwaitHide b)))
   \<or> (\<not> progress_available st \<and> (\<exists>s. save_finally st b = (st\<lparr> saveInProgress := False \<rparr>, s) \<and> finished s
         \<and> (s = Done b \<or> (\<exists>e. s = Throw e))))"
  by (auto simp: save_finally_def progress_available_def host_shape_def Let_def split: option.splits)

lemma save_finally_state: "fst (save_finally st b) = st\<lparr> saveInProgress := False \<rparr>"
  using save_finally_cases [of st b] by auto

lemma save_catch_state:
  "fst (save_catch st e) = (updateSaveStatus (logError st ''Failed to save state to file'') UNSAVED)\<lparr> saveInProgress := False \<rparr>"
  by (simp add: save_catch_def save_finally_state)

lemma host_shape_saveInProgress [simp]: "host_shape (st\<lparr> saveInProgress := b \<rparr>) = host_shape st"
  by (simp add: host_shape_def)

lemma progress_available_simps [simp]:
  "progress_available (st\<lparr> saveInProgress := b \<rparr>) = progress_available st"
  "progress_available (updateSaveStatus st s) = progress_available st"
  "progress_available (logError st c) = progress_available st"
  by (simp_all add: progress_available_def)

lemma progress_available_frame: "frame st st' \<Longrightarrow> progress_available st' = progress_available st"
  by (simp add: frame_def progress_available_def)

lemma progress_available_tera:
  "progress_available st \<Longrightarrow> \<exists>vi t. vueInstance st = Some vi \<and> tera vi = Some t \<and> uiProgress_fn t"
  by (auto simp: progress_available_def host_shape_def)

lemma save_finally_leaving: "progress_available st \<Longrightarrow> leaving (save_finally st b)"
  using save_finally_cases [of st b] by (auto simp: leaving_def)

lemma save_catch_leaving: "progress_available st \<Longrightarrow> leaving (save_catch st e)"
  by (simp add: save_catch_def save_finally_leaving)

lemma save_write_step:
  "progress_available st \<Longrightarrow> saveInProgress st \<Longrightarrow>
   leaving (save_write st state f) \<or> in_flight (save_write st state f)"
  by (auto simp: save_write_def Let_def save_catch_leaving in_flight_def split: option.splits)

lemma save_after_name_step:
  assumes "progress_available st" "saveInProgress st" "frame st (fst res)"
  shows "leaving (save_after_name state res) \<or> in_flight (save_after_name state res)"
proof -
  have p: "progress_available (fst res)" "saveInProgress (fst res)"
    using assms by (simp_all add: frame_def progress_available_def)
  show ?thesis
  proof (cases res)
    case (Pair st' s)
    show ?thesis
    proof (cases s)
      case (Await c k)
      with p Pair show ?thesis by (simp add: save_after_name_def in_flight_def)
    next
      case (Done f)
      with p Pair save_write_step [of st' state f] show ?thesis by (simp add: save_after_name_def)
    next
      case (Throw e)
      with p Pair show ?thesis by (simp add: save_after_name_def save_catch_leaving)
    qed
  qed
qed

lemma save_resume_step:
  assumes "progress_available st" "saveInProgress st" "save_in_try pc"
  shows "leaving (saveStateToFile_resume st pc r) \<or> in_flight (saveStateToFile_resume st pc r)"
proof (cases pc)
  case (SaveAwaitProgress state nid)
  show ?thesis
  proof (cases r)
    case (Resolved v)
    with SaveAwaitProgress
      save_after_name_step [OF assms(1,2) frame_getStorageFileName_start [of st nid], of state]
    show ?thesis by (simp add: saveStateToFile_resume_def)
  next
    case (Rejected e)
    with SaveAwaitProgress assms(1) show ?thesis
      by (simp add: saveStateToFile_resume_def save_catch_leaving)
  qed
next
  case (SaveFileName state k)
  with save_after_name_step [OF assms(1,2) frame_getStorageFileName_resume [of st k r], of state]
  show ?thesis by (simp add: saveStateToFile_resume_def)
next
  case SaveAwaitWrite
  with assms(1) show ?thesis
    by (cases r) (simp_all add: saveStateToFile_resume_def save_catch_leaving save_finally_leaving)
next
  case (SaveAwaitHide b)
  with assms(3) show ?thesis by simp
qed

lemma progress_available_save_resume:
  "progress_available (fst (saveStateToFile_resume st pc r)) = progress_available st"
proof -
  have w: "progress_available (fst (save_write s state f)) = progress_available s" for s state f
    by (simp add: save_write_def Let_def save_catch_state split: option.splits)
  have a: "progress_available (fst (save_after_name state res)) = progress_available (fst res)" for state res
    by (cases res; cases "snd res") (auto simp: save_after_name_def save_catch_state w)
  show ?thesis
    by (cases pc; cases r)
       (auto simp: saveStateToFile_resume_def save_catch_state save_finally_state a
         progress_available_frame [OF frame_getStorageFileName_start]
         progress_available_frame [OF frame_getStorageFileName_resume])
qed

lemma save_start_bound:
  "\<not> saveInProgress st \<Longrightarrow> progress_available st \<Longrightarrow> in_flight (saveStateToFile_start st state nid)"
  by (auto simp: saveStateToFile_start_def Let_def in_flight_def dest!: progress_available_tera)

lemma save_start_unbound:
  "\<not> saveInProgress st \<Longrightarrow> \<not> progress_available st \<Longrightarrow>
   finished (snd (saveStateToFile_start st state nid)) \<and> \<not> saveInProgress (fst (saveStateToFile_start st state nid))"
proof -
  assume a: "\<not> saveInProgress st" "\<not> progress_available st"
  let ?st1 = "updateSaveStatus (st\<lparr> saveInProgress := True \<rparr>) SAVING"
  have n: "\<not> progress_available (updateSaveStatus (logError ?st1 ''Failed to save state to file'') UNSAVED)"
    using a by simp
  have "\<exists>e. saveStateToFile_start st state nid = save_catch ?st1 e"
    using a by (auto simp: saveStateToFile_start_def Let_def progress_available_def host_shape_def
        split: option.splits)
  then obtain e where e: "saveStateToFile_start st state nid = save_catch ?st1 e" ..
  show ?thesis
    unfolding e save_catch_def
    using save_finally_cases [of "updateSaveStatus (logError ?st1 ''Failed to save state to file'') UNSAVED" False] n
    by auto
qed

lemma drive_save_in_flight:
  "progress_available st \<Longrightarrow> leaving (st, s) \<or> in_flight (st, s) \<Longrightarrow>
   finished (snd (fst (drive saveStateToFile_resume (st, s) rs))) \<Longrightarrow>
   \<not> saveInProgress (fst (fst (drive saveStateToFile_resume (st, s) rs)))
   \<and> snd (drive saveStateToFile_resume (st, s) rs) \<noteq> []
   \<and> last (snd (drive saveStateToFile_resume (st, s) rs)) = UiProgressHide"
proof (induction rs arbitrary: st s)
  case Nil
  then show ?case by (auto simp: leaving_def in_flight_def)
next
  case (Cons r rs)
  from Cons.prems(2) show ?case
  proof
    assume "leaving (st, s)"
    then obtain b where s: "s = Await UiProgressHide (SaveAwaitHide b)" and g: "\<not> saveInProgress st"
      by (auto simp: leaving_def)
    show ?thesis using g by (cases r) (simp_all add: s saveStateToFile_resume_def)
  next
    assume "in_flight (st, s)"
    then obtain c pc where s: "s = Await c pc" and t: "save_in_try pc" and g: "saveInProgress st"
      by (auto simp: in_flight_def)
    obtain st' s' where res: "saveStateToFile_resume st pc r = (st', s')"
      by (cases "saveStateToFile_resume st pc r")
    have p': "progress_available st'"
      using progress_available_save_resume [of st pc r] Cons.prems(1) res by simp
    have i': "leaving (st', s') \<or> in_flight (st', s')"
      using save_resume_step [OF Cons.prems(1) g t, of r] res by simp
    have f': "finished (snd (fst (drive saveStateToFile_resume (st', s') rs)))"
      using Cons.prems(3) by (simp add: s res case_prod_beta)
    from Cons.IH [OF p' i' f'] show ?thesis
      by (simp add: s res case_prod_beta)
  qed
qed

lemma save_rank_pos: "0 < save_rank k"
  by (simp add: save_rank_def split: save_pc.splits)

lemma save_finally_rank: "save_finally st b = (st', Await c k) \<Longrightarrow> save_rank k = 1"
  by (auto simp: save_finally_def Let_def save_rank_def split: option.splits if_splits)

lemma save_catch_rank: "save_catch st e = (st', Await c k) \<Longrightarrow> save_rank k = 1"
  by (auto simp: save_catch_def dest: save_finally_rank)

lemma save_write_rank: "save_write st state f = (st', Await c k) \<Longrightarrow> save_rank k \<le> 2"
  by (auto simp: save_write_def Let_def save_rank_def split: option.splits if_splits
      dest!: save_catch_rank)

lemma save_after_name_rank:
  assumes "save_after_name state res = (st', Await c k)"
    and "\<And>c' k'. snd res = Await c' k' \<Longrightarrow> fn_rank k' \<le> n"
  shows "save_rank k \<le> 2 + n"
proof (cases res)
  case (Pair st s)
  show ?thesis
  proof (cases s)
    case (Await c' k')
    with assms Pair show ?thesis by (auto simp: save_after_name_def save_rank_def)
  next
    case (Done f)
    with assms(1) Pair have "save_write st state f = (st', Await c k)" by (simp add: save_after_name_def)
    from save_write_rank [OF this] show ?thesis by simp
  next
    case (Throw e)
    with assms(1) Pair have "save_catch st e = (st', Await c k)" by (simp add: save_after_name_def)
    from save_catch_rank [OF this] show ?thesis by simp
  qed
qed

lemma saveStateToFile_start_rank:
  "saveStateToFile_start st state nid = (st', Await c k) \<Longrightarrow> save_rank k \<le> 6"
  by (auto simp: saveStateToFile_start_def Let_def save_rank_def split: option.splits if_splits
      dest!: save_catch_rank)

lemma saveStateToFile_resume_rank:
  assumes "saveStateToFile_resume st pc r = (st', Await c k)"
  shows "save_rank k < save_rank pc"
proof (cases pc)
  case (SaveAwaitProgress state nid)
  show ?thesis
  proof (cases r)
    case (Resolved v)
    have "save_rank k \<le> 2 + 3"
    proof (rule save_after_name_rank)
      show "save_after_name state (getStorageFileName_start st nid) = (st', Await c k)"
        using assms SaveAwaitProgress Resolved by (simp add: saveStateToFile_resume_def)
      fix c' k' assume "snd (getStorageFileName_start st nid) = Await c' k'"
      then have "getStorageFileName_start st nid = (fst (getStorageFileName_start st nid), Await c' k')"
        by (metis prod.collapse)
      then show "fn_rank k' \<le> 3" by (rule getStorageFileName_start_rank)
    qed
    with SaveAwaitProgress show ?thesis by (simp add: save_rank_def)
  next
    case (Rejected e)
    with assms SaveAwaitProgress show ?thesis
      by (auto simp: saveStateToFile_resume_def save_rank_def dest!: save_catch_rank)
  qed
next
  case (SaveFileName state k0)
  have "save_rank k \<le> 2 + (fn_rank k0 - 1)"
  proof (rule save_after_name_rank)
    show "save_after_name state (getStorageFileName_resume st k0 r) = (st', Await c k)"
      using assms SaveFileName by (simp add: saveStateToFile_resume_def)
    fix c' k' assume "snd (getStorageFileName_resume st k0 r) = Await c' k'"
    then have "getStorageFileName_resume st k0 r = (fst (getStorageFileName_resume st k0 r), Await c' k')"
      by (metis prod.collapse)
    from getStorageFileName_resume_rank [OF this] show "fn_rank k' \<le> fn_rank k0 - 1" by simp
  qed
  with fn_rank_pos [of k0] SaveFileName show ?thesis by (simp add: save_rank_def)
next
  case SaveAwaitWrite
  with assms show ?thesis
    by (cases r) (auto simp: saveStateToFile_resume_def save_rank_def dest!: save_catch_rank save_finally_rank)
next
  case (SaveAwaitHide b)
  with assms show ?thesis by (cases r) (simp_all add: saveStateToFile_resume_def)
qed

text \<open>
  C5. Every run of an accepted save that comes to an end, by returning or by throwing, ends with
  the in-flight guard cleared; when the host binding offers the progress call, the last host
  call of the run is the dismissal of the progress indicator, and otherwise the run made no
  host call at all, so that no indicator was ever shown. Six host replies suffice for the run
  to end.
\<close>

theorem saveStateToFile_cleanup:
  "\<not> saveInProgress st \<Longrightarrow>
     (6 \<le> length rs \<longrightarrow>
        finished (snd (fst (drive saveStateToFile_resume (saveStateToFile_start st state nid) rs))))
     \<and> (finished (snd (fst (drive saveStateToFile_resume (saveStateToFile_start st state nid) rs))) \<longrightarrow>
          \<not> saveInProgress (fst (fst (drive saveStateToFile_resume (saveStateToFile_start st state nid) rs)))
          \<and> (if progress_available st
              then snd (drive saveStateToFile_resume (saveStateToFile_start st state nid) rs) \<noteq> []
                   \<and> last (snd (drive saveStateToFile_resume (saveStateToFile_start st state nid) rs)) = UiProgressHide
              else snd (drive saveStateToFile_resume (saveStateToFile_start st state nid) rs) = []))"
proof -
  assume g: "\<not> saveInProgress st"
  obtain st0 s0 where start: "saveStateToFile_start st state nid = (st0, s0)"
    by (cases "saveStateToFile_start st state nid")
  let ?R = "drive saveStateToFile_resume (st0, s0) rs"
  have fin: "finished (snd (fst ?R))" if len: "6 \<le> length rs"
  proof (rule drive_finishes [where rank = save_rank])
    fix c k assume "s0 = Await c k"
    with start have "save_rank k \<le> 6" by (auto dest: saveStateToFile_start_rank)
    with len show "save_rank k \<le> length rs" by simp
  qed (auto intro: saveStateToFile_resume_rank save_rank_pos)
  have clean: "\<not> saveInProgress (fst (fst ?R))
      \<and> (if progress_available st then snd ?R \<noteq> [] \<and> last (snd ?R) = UiProgressHide else snd ?R = [])"
    if f: "finished (snd (fst ?R))"
  proof (cases "progress_available st")
    case True
    have i: "in_flight (st0, s0)" using save_start_bound [OF g True, of state nid] start by simp
    have "fst (saveStateToFile_start st state nid) = updateSaveStatus (st\<lparr> saveInProgress := True \<rparr>) SAVING"
      using g progress_available_tera [OF True] by (auto simp: saveStateToFile_start_def Let_def)
    with True start have p0: "progress_available st0" by simp
    from drive_save_in_flight [OF p0 _ f] i True show ?thesis by simp
  next
    case False
    from save_start_unbound [OF g False, of state nid] start
    have "finished s0" "\<not> saveInProgress st0" by simp_all
    with False show ?thesis by (cases s0) simp_all
  qed
  show ?thesis unfolding start using fin clean by blast
qed

theorem saveStateToFile_cleanup_witness:
  "\<not> saveInProgress demo_bound
   \<and> (6::nat) \<le> length [Resolved JUndefined, Resolved JUndefined, Resolved JUndefined,
        Rejected ''write failed'', Resolved JUndefined, Resolved JUndefined]
   \<and> snd (fst (drive saveStateToFile_resume (saveStateToFile_start demo_bound demo_state ''n1'')
        [Resolved JUndefined, Resolved JUndefined, Resolved JUndefined,
         Rejected ''write failed'', Resolved JUndefined, Resolved JUndefined])) = Done False
   \<and> \<not> saveInProgress (fst (fst (drive saveStateToFile_resume (saveStateToFile_start demo_bound demo_state ''n1'')
        [Resolved JUndefined, Resolved JUndefined, Resolved JUndefined,
         Rejected ''write failed'', Resolved JUndefined, Resolved JUndefined])))
   \<and> progress_available demo_bound
   \<and> last (snd (drive saveStateToFile_resume (saveStateToFile_start demo_bound demo_state ''n1'')
        [Resolved JUndefined, Resolved JUndefined, Resolved JUndefined,
         Rejected ''write failed'', Resolved JUndefined, Resolved JUndefined])) = UiProgressHide"
proof -
  have a: "\<not> saveInProgress demo_bound" "progress_available demo_bound"
    by (simp_all add: demo_eval progress_available_def host_shape_def)
  have run: "snd (fst (drive saveStateToFile_resume (saveStateToFile_start demo_bound demo_state ''n1'')
        [Resolved JUndefined, Resolved JUndefined, Resolved JUndefined,
         Rejected ''write failed'', Resolved JUndefined, Resolved JUndefined])) = Done False"
    by (simp add: plugin_eval demo_eval Let_def)
  show ?thesis
    using a run saveStateToFile_cleanup [OF a(1), of
        "[Resolved JUndefined, Resolved JUndefined, Resolved JUndefined,
          Rejected ''write failed'', Resolved JUndefined, Resolved JUndefined]" demo_state "''n1''"]
    by simp
qed

lemma progress_available_on_store_change [simp]:
  "progress_available (on_store_change st) = progress_available st"
  by (simp add: on_store_change_def)

lemma on_store_change_saving: "saveStatus st = SAVING \<Longrightarrow> on_store_change st = st"
  by (simp add: on_store_change_def)

lemma syncStatusStore_updateSaveStatus:
  "syncStatusStore st \<noteq> None \<Longrightarrow> syncStatusStore (updateSaveStatus st s) \<noteq> None"
  by (auto simp: updateSaveStatus_def)

lemma saveStatus_updateSaveStatus:
  "syncStatusStore st \<noteq> None \<Longrightarrow> saveStatus (updateSaveStatus st s) = s"
  by (auto simp: updateSaveStatus_def)

lemma save_finally_resolved:
  "progress_available st \<Longrightarrow> saveStatus st = (if b then SAVED else UNSAVED) \<Longrightarrow>
   resolved (save_finally st b) \<and> syncStatusStore (fst (save_finally st b)) = syncStatusStore st
   \<and> progress_available (fst (save_finally st b))"
  using save_finally_cases [of st b] by (auto simp: resolved_def leaving_def)

lemma save_catch_tracked:
  assumes "syncStatusStore st \<noteq> None" "progress_available st"
  shows "tracked (save_catch st e)"
proof -
  let ?st = "updateSaveStatus (logError st ''Failed to save state to file'') UNSAVED"
  have n: "syncStatusStore (logError st ''Failed to save state to file'') \<noteq> None"
    using assms(1) by (simp add: logError_def)
  have "progress_available ?st" "saveStatus ?st = (if False then SAVED else UNSAVED)"
    "syncStatusStore ?st \<noteq> None"
    using assms(2) n by (simp_all add: saveStatus_updateSaveStatus syncStatusStore_updateSaveStatus)
  with save_finally_resolved [of ?st False] show ?thesis
    by (simp add: tracked_def save_catch_def)
qed

lemma save_write_tracked:
  assumes "syncStatusStore st \<noteq> None" "progress_available st" "saveInProgress st" "saveStatus st = SAVING"
  shows "tracked (save_write st state f)"
  using assms save_catch_tracked [OF assms(1,2)]
  by (auto simp: save_write_def Let_def tracked_def saving_def in_flight_def split: option.splits)

lemma save_after_name_tracked:
  assumes "syncStatusStore st \<noteq> None" "progress_available st" "saveInProgress st" "saveStatus st = SAVING"
    and "frame st (fst res)"
  shows "tracked (save_after_name state res)"
proof -
  have p: "syncStatusStore (fst res) \<noteq> None" "progress_available (fst res)" "saveInProgress (fst res)"
    "saveStatus (fst res) = SAVING"
    using assms by (simp_all add: frame_def progress_available_def)
  show ?thesis
  proof (cases res)
    case (Pair st' s)
    show ?thesis
    proof (cases s)
      case (Await c k)
      with p Pair show ?thesis
        by (simp add: save_after_name_def tracked_def saving_def in_flight_def)
    next
      case (Done f)
      with p Pair save_write_tracked [of st' state f] show ?thesis by (simp add: save_after_name_def)
    next
      case (Throw e)
      with p Pair save_catch_tracked [of st' e] show ?thesis by (simp add: save_after_name_def)
    qed
  qed
qed

lemma save_resume_tracked:
  assumes "syncStatusStore st \<noteq> None" "progress_available st" "saveInProgress st" "saveStatus st = SAVING"
    and "save_in_try pc"
  shows "tracked (saveStateToFile_resume st pc r)"
proof (cases pc)
  case (SaveAwaitProgress state nid)
  show ?thesis
  proof (cases r)
    case (Resolved v)
    with SaveAwaitProgress
      save_after_name_tracked [OF assms(1-4) frame_getStorageFileName_start [of st nid], of state]
    show ?thesis by (simp add: saveStateToFile_resume_def)
  next
    case (Rejected e)
    with SaveAwaitProgress save_catch_tracked [OF assms(1,2)] show ?thesis
      by (simp add: saveStateToFile_resume_def)
  qed
next
  case (SaveFileName state k)
  with save_after_name_tracked [OF assms(1-4) frame_getStorageFileName_resume [of st k r], of state]
  show ?thesis by (simp add: saveStateToFile_resume_def)
next
  case SaveAwaitWrite
  show ?thesis
  proof (cases r)
    case (Resolved v)
    let ?st = "updateSaveStatus st SAVED"
    have "progress_available ?st" "saveStatus ?st = (if True then SAVED else UNSAVED)"
      "syncStatusStore ?st \<noteq> None"
      using assms by (simp_all add: saveStatus_updateSaveStatus syncStatusStore_updateSaveStatus)
    with save_finally_resolved [of ?st True] SaveAwaitWrite Resolved show ?thesis
      by (simp add: tracked_def saveStateToFile_resume_def)
  next
    case (Rejected e)
    with SaveAwaitWrite save_catch_tracked [OF assms(1,2)] show ?thesis
      by (simp add: saveStateToFile_resume_def)
  qed
next
  case (SaveAwaitHide b)
  with assms(5) show ?thesis by simp
qed

lemma drive_events_tracked: "tracked (st, s) \<Longrightarrow> tracked (drive_events (st, s) evs)"
proof (induction evs arbitrary: st s)
  case Nil
  then show ?case by (cases s) simp_all
next
  case (Cons e evs)
  from Cons.prems have "saving (st, s) \<or> resolved (st, s)" by (simp add: tracked_def)
  then show ?case
  proof
    assume "resolved (st, s)"
    then obtain b where "s = Await UiProgressHide (SaveAwaitHide b)"
      by (auto simp: resolved_def leaving_def)
    with Cons.prems show ?thesis by simp
  next
    assume sv: "saving (st, s)"
    then obtain c pc where s: "s = Await c pc" and t: "save_in_try pc"
      and g: "saveInProgress st" and sa: "saveStatus st = SAVING"
      by (auto simp: saving_def in_flight_def)
    from Cons.prems have n: "syncStatusStore st \<noteq> None" and p: "progress_available st"
      by (simp_all add: tracked_def)
    show ?thesis
    proof (cases e)
      case StoreChange
      with Cons.IH [OF Cons.prems] s t sa show ?thesis
        by (simp add: on_store_change_saving)
    next
      case (Reply r)
      obtain st' s' where res: "saveStateToFile_resume st pc r = (st', s')"
        by (cases "saveStateToFile_resume st pc r")
      with save_resume_tracked [OF n p g sa t, of r] have "tracked (st', s')" by simp
      from Cons.IH [OF this] Reply s t res show ?thesis by simp
    qed
  qed
qed

lemma save_start_tracked:
  assumes "\<not> saveInProgress st" "syncStatusStore st \<noteq> None" "progress_available st"
  shows "tracked (saveStateToFile_start st state nid)"
proof -
  have "saveStateToFile_start st state nid
      = (updateSaveStatus (st\<lparr> saveInProgress := True \<rparr>) SAVING,
         Await (UiProgressShow ''Saving tool data'') (SaveAwaitProgress state nid))"
    using assms(1) progress_available_tera [OF assms(3)] by (auto simp: saveStateToFile_start_def Let_def)
  moreover have "syncStatusStore (st\<lparr> saveInProgress := True \<rparr>) \<noteq> None" using assms(2) by simp
  ultimately show ?thesis
    using assms(3)
    by (simp add: tracked_def saving_def in_flight_def saveStatus_updateSaveStatus
        syncStatusStore_updateSaveStatus)
qed

lemma save_start_untracked:
  assumes "\<not> saveInProgress st" "syncStatusStore st \<noteq> None" "\<not> progress_available st"
  shows "finished (snd (saveStateToFile_start st state nid))
         \<and> settled (saveStatus (fst (saveStateToFile_start st state nid))) (snd (saveStateToFile_start st state nid))"
proof -
  let ?st1 = "updateSaveStatus (st\<lparr> saveInProgress := True \<rparr>) SAVING"
  let ?st2 = "updateSaveStatus (logError ?st1 ''Failed to save state to file'') UNSAVED"
  have n1: "syncStatusStore (st\<lparr> saveInProgress := True \<rparr>) \<noteq> None" using assms(2) by simp
  have n2: "syncStatusStore (logError ?st1 ''Failed to save state to file'') \<noteq> None"
    using syncStatusStore_updateSaveStatus [OF n1, of SAVING] by (simp add: logError_def)
  have u: "saveStatus ?st2 = UNSAVED" using n2 by (rule saveStatus_updateSaveStatus)
  have np: "\<not> progress_available ?st2" using assms(3) by simp
  have "\<exists>e. saveStateToFile_start st state nid = save_catch ?st1 e"
    using assms(1,3) by (auto simp: saveStateToFile_start_def Let_def progress_available_def host_shape_def
        split: option.splits)
  then obtain e where e: "saveStateToFile_start st state nid = save_catch ?st1 e" ..
  show ?thesis
    unfolding e save_catch_def
    using save_finally_cases [of ?st2 False] np u by auto
qed

lemma drive_events_finished: "finished s \<Longrightarrow> drive_events (st, s) evs = (st, s)"
  by (cases s) simp_all

lemma save_start_accepted:
  assumes "\<not> saveInProgress st" "syncStatusStore st \<noteq> None"
  shows "settled (saveStatus (fst (drive_events (saveStateToFile_start st state nid) evs)))
           (snd (drive_events (saveStateToFile_start st state nid) evs))"
proof (cases "progress_available st")
  case True
  obtain st0 s0 where start: "saveStateToFile_start st state nid = (st0, s0)"
    by (cases "saveStateToFile_start st state nid")
  from save_start_tracked [OF assms True, of state nid] have "tracked (st0, s0)" by (simp add: start)
  then have "tracked (drive_events (st0, s0) evs)" by (rule drive_events_tracked)
  then show ?thesis
    unfolding start
    by (auto simp: tracked_def saving_def resolved_def in_flight_def
        elim!: save_in_try.elims)
next
  case False
  obtain st0 s0 where start: "saveStateToFile_start st state nid = (st0, s0)"
    by (cases "saveStateToFile_start st state nid")
  from save_start_untracked [OF assms False, of state nid] start
  have "finished s0" "settled (saveStatus st0) s0" by simp_all
  then show ?thesis unfolding start by (simp add: drive_events_finished)
qed

text \<open>
  C3. From an accepted save with the status store present, under every sequence of host
  replies and store-change notifications: while the save is in its try block the status is
  Saving, so a notification arriving then leaves the plugin as it is; once the save leaves
  the try block the status is Saved when the outcome is true and Unsaved when it is false.
\<close>

theorem status_follows_save_outcome:
  "\<not> saveInProgress st0 \<Longrightarrow> syncStatusStore st0 \<noteq> None \<Longrightarrow>
     settled (getSaveStatus (fst (drive_events (saveStateToFile_start st0 state nid) evs)))
       (snd (drive_events (saveStateToFile_start st0 state nid) evs))
     \<and> (saveStatus st = SAVING \<longrightarrow> on_store_change st = st)"
  using save_start_accepted [of st0 state nid evs]
  by (simp add: getSaveStatus_def on_store_change_saving)

theorem status_follows_save_outcome_witness:
  "\<not> saveInProgress demo_tracked \<and> syncStatusStore demo_tracked \<noteq> None
   \<and> snd (drive_events (saveStateToFile_start demo_tracked demo_state ''n1'')
        [Reply (Resolved JUndefined), StoreChange, Reply (Resolved JUndefined), Reply (Resolved JUndefined),
         StoreChange, Reply (Rejected ''write failed'')])
       = Await UiProgressHide (SaveAwaitHide False)
   \<and> getSaveStatus (fst (drive_events (saveStateToFile_start demo_tracked demo_state ''n1'')
        [Reply (Resolved JUndefined), StoreChange, Reply (Resolved JUndefined), Reply (Resolved JUndefined),
         StoreChange, Reply (Rejected ''write failed'')])) = UNSAVED
   \<and> getSaveStatus (fst (drive_events (saveStateToFile_start demo_tracked demo_state ''n1'')
        [Reply (Resolved JUndefined), StoreChange])) = SAVING
   \<and> saveStatus (demo_tracked\<lparr> saveStatus := SAVING \<rparr>) = SAVING
   \<and> on_store_change (demo_tracked\<lparr> saveStatus := SAVING \<rparr>) = demo_tracked\<lparr> saveStatus := SAVING \<rparr>"
proof -
  let ?evs = "[Reply (Resolved JUndefined), StoreChange, Reply (Resolved JUndefined), Reply (Resolved JUndefined),
         StoreChange, Reply (Rejected ''write failed'')]"
  have a: "\<not> saveInProgress demo_tracked" "syncStatusStore demo_tracked \<noteq> None"
    by (simp_all add: demo_tracked_def demo_eval)
  have b: "snd (drive_events (saveStateToFile_start demo_tracked demo_state ''n1'') ?evs)
       = Await UiProgressHide (SaveAwaitHide False)"
    by (simp add: plugin_eval demo_tracked_def demo_eval Let_def)
  have c: "snd (drive_events (saveStateToFile_start demo_tracked demo_state ''n1'')
        [Reply (Resolved JUndefined), StoreChange])
       = Await (CreateProjectFile ''data-demo-n1.json'')
           (SaveFileName demo_state (FnAwaitCreate ''demo'' ''data-demo-n1.json''))"
    by (simp add: plugin_eval demo_tracked_def demo_eval Let_def)
  from status_follows_save_outcome [OF a, of demo_state "''n1''" ?evs "demo_tracked\<lparr> saveStatus := SAVING \<rparr>"]
    status_follows_save_outcome [OF a, of demo_state "''n1''" "[Reply (Resolved JUndefined), StoreChange]"
      "demo_tracked\<lparr> saveStatus := SAVING \<rparr>"]
    a b c show ?thesis by simp
qed

lemma drive_events_in_flight:
  "progress_available st \<Longrightarrow> leaving (st, s) \<or> in_flight (st, s) \<Longrightarrow>
   leaving (drive_events (st, s) evs) \<or> in_flight (drive_events (st, s) evs)"
proof (induction evs arbitrary: st s)
  case Nil
  then show ?case by (cases s) simp_all
next
  case (Cons e evs)
  from Cons.prems(2) show ?case
  proof
    assume l: "leaving (st, s)"
    then obtain b where "s = Await UiProgressHide (SaveAwaitHide b)" by (auto simp: leaving_def)
    with l show ?thesis by simp
  next
    assume i: "in_flight (st, s)"
    then obtain c pc where s: "s = Await c pc" and t: "save_in_try pc" and g: "saveInProgress st"
      by (auto simp: in_flight_def)
    show ?thesis
    proof (cases e)
      case StoreChange
      have "in_flight (on_store_change st, s)" using s t g by (simp add: in_flight_def)
      with Cons.IH [of "on_store_change st" s] Cons.prems(1) StoreChange s t show ?thesis by simp
    next
      case (Reply r)
      obtain st' s' where res: "saveStateToFile_resume st pc r = (st', s')"
        by (cases "saveStateToFile_resume st pc r")
      have p': "progress_available st'"
        using progress_available_save_resume [of st pc r] Cons.prems(1) res by simp
      have "leaving (st', s') \<or> in_flight (st', s')"
        using save_resume_step [OF Cons.prems(1) g t, of r] res by simp
      from Cons.IH [OF p' this] Reply s t res show ?thesis by simp
    qed
  qed
qed

text \<open>
  C2 (as amended). While an accepted save is in its try block, that is from its entry until
  the write has been settled, under every sequence of host replies and store-change
  notifications, a second call of saveStateToFile returns false at once: it makes no host
  call and leaves the plugin, its status included, as it is.
\<close>

theorem second_save_rejected:
  "\<not> saveInProgress st0 \<Longrightarrow>
   drive_events (saveStateToFile_start st0 state nid) evs = (st, Await c pc) \<Longrightarrow>
   save_in_try pc \<Longrightarrow>
   saveInProgress st \<and> saveStateToFile_start st state' nid' = (st, Done False)"
proof -
  assume g: "\<not> saveInProgress st0"
    and run: "drive_events (saveStateToFile_start st0 state nid) evs = (st, Await c pc)"
    and t: "save_in_try pc"
  obtain st1 s1 where start: "saveStateToFile_start st0 state nid = (st1, s1)"
    by (cases "saveStateToFile_start st0 state nid")
  have "saveInProgress st"
  proof (cases "progress_available st0")
    case True
    have "fst (saveStateToFile_start st0 state nid) = updateSaveStatus (st0\<lparr> saveInProgress := True \<rparr>) SAVING"
      using g progress_available_tera [OF True] by (auto simp: saveStateToFile_start_def Let_def)
    with True start have p1: "progress_available st1" by simp
    have "in_flight (st1, s1)" using save_start_bound [OF g True, of state nid] start by simp
    with drive_events_in_flight [OF p1, of s1 evs]
    have "leaving (st, Await c pc) \<or> in_flight (st, Await c pc)" using run start by simp
    with t show ?thesis by (auto simp: leaving_def in_flight_def)
  next
    case False
    from save_start_unbound [OF g False, of state nid] start have "finished s1" by simp
    with run start show ?thesis by (simp add: drive_events_finished)
  qed
  then show ?thesis by (simp add: saveStateToFile_start_def)
qed

theorem second_save_rejected_witness:
  "\<not> saveInProgress demo_tracked
   \<and> snd (drive_events (saveStateToFile_start demo_tracked demo_state ''n1'')
        [Reply (Resolved JUndefined), StoreChange, Reply (Resolved JUndefined)])
       = Await (SetProjectState ''temp.demo'' ''data-demo-n1.json'') (SaveFileName demo_state (FnAwaitSetState ''data-demo-n1.json''))
   \<and> save_in_try (SaveFileName demo_state (FnAwaitSetState ''data-demo-n1.json''))
   \<and> saveStateToFile_start
        (fst (drive_events (saveStateToFile_start demo_tracked demo_state ''n1'')
           [Reply (Resolved JUndefined), StoreChange, Reply (Resolved JUndefined)])) demo_state ''n2''
       = (fst (drive_events (saveStateToFile_start demo_tracked demo_state ''n1'')
           [Reply (Resolved JUndefined), StoreChange, Reply (Resolved JUndefined)]), Done False)"
proof -
  let ?R = "drive_events (saveStateToFile_start demo_tracked demo_state ''n1'')
        [Reply (Resolved JUndefined), StoreChange, Reply (Resolved JUndefined)]"
  have a: "\<not> saveInProgress demo_tracked" by (simp add: demo_tracked_def demo_eval)
  have b: "snd ?R = Await (SetProjectState ''temp.demo'' ''data-demo-n1.json'')
      (SaveFileName demo_state (FnAwaitSetState ''data-demo-n1.json''))"
    by (simp add: plugin_eval demo_tracked_def demo_eval Let_def)
  then have c: "?R = (fst ?R, Await (SetProjectState ''temp.demo'' ''data-demo-n1.json'')
      (SaveFileName demo_state (FnAwaitSetState ''data-demo-n1.json'')))"
    by (metis prod.collapse)
  have d: "save_in_try (SaveFileName demo_state (FnAwaitSetState ''data-demo-n1.json''))" by simp
  from second_save_rejected [OF a c d, of demo_state "''n2''"] a b d show ?thesis by simp
qed

text \<open>
  Counterexample for C2 as stated: the in-flight guard is cleared before the dismissal of the
  progress indicator is awaited. With the first call waiting there, not yet completed, a second
  call is accepted and goes to the host.
\<close>

theorem second_save_counterexample:
  "snd (drive_events (saveStateToFile_start demo_tracked demo_state ''n1'')
        [Reply (Resolved JUndefined), Reply (Resolved JUndefined), Reply (Resolved JUndefined),
         Reply (Resolved JUndefined)])
     = Await UiProgressHide (SaveAwaitHide True)
   \<and> snd (saveStateToFile_start
        (fst (drive_events (saveStateToFile_start demo_tracked demo_state ''n1'')
           [Reply (Resolved JUndefined), Reply (Resolved JUndefined), Reply (Resolved JUndefined),
            Reply (Resolved JUndefined)])) demo_state ''n2'')
     = Await (UiProgressShow ''Saving tool data'') (SaveAwaitProgress demo_state ''n2'')"
  by (simp add: plugin_eval demo_tracked_def demo_eval Let_def)


subsection \<open>Initialization\<close>

lemma store_present_load_resume:
  "syncStatusStore st \<noteq> None \<Longrightarrow> syncStatusStore (fst (loadStateFromFile_resume st pc r)) \<noteq> None"
proof -
  assume n: "syncStatusStore st \<noteq> None"
  have f: "frame st st' \<Longrightarrow> syncStatusStore st' \<noteq> None" for st'
    using n by (simp add: frame_def)
  show ?thesis
  proof (cases pc)
    case (LoadFileName k)
    have "frame st (fst (load_after_name (getStorageFileName_resume st k r)))"
      by (rule frame_load_after_name) (rule frame_getStorageFileName_resume)
    with LoadFileName show ?thesis by (simp add: loadStateFromFile_resume_def f)
  next
    case LoadAwaitRead
    with n f [OF frame_load_catch] show ?thesis
      by (cases r) (auto simp: loadStateFromFile_resume_def updateSaveStatus_def)
  qed
qed

lemma store_present_on_store_change:
  "syncStatusStore st \<noteq> None \<Longrightarrow> syncStatusStore (on_store_change st) \<noteq> None"
  by (auto simp: on_store_change_def updateSaveStatus_def)

lemma store_present_funpow:
  "syncStatusStore st \<noteq> None \<Longrightarrow> syncStatusStore ((on_store_change ^^ n) st) \<noteq> None"
  by (induction n) (simp_all add: store_present_on_store_change)

lemma init_after_load_status:
  assumes "syncStatusStore st \<noteq> None"
  shows "saveStatus (fst (init_after_load env st v)) = (if truthy v then SAVED else UNSAVED)"
proof -
  have "syncStatusStore (initializeStores st env v) \<noteq> None"
    using assms store_present_funpow [OF assms, of "patch_notifications env"]
    by (auto simp: initializeStores_def)
  then show ?thesis
    using assms
    by (simp add: init_after_load_def Let_def init_catch_def init_post_def logError_def
        saveStatus_updateSaveStatus split: option.splits)
qed

lemma init_after_load_shape:
  "finished (snd (init_after_load env st v)) \<or> (\<exists>c. snd (init_after_load env st v) = Await c InitAwaitHide)"
  by (simp add: init_after_load_def Let_def init_catch_def init_post_def split: option.splits)

lemma drive_init_tail:
  "finished s \<or> (\<exists>c. s = Await c InitAwaitHide) \<Longrightarrow>
   saveStatus (fst (fst (drive (initialize_resume env) (st, s) rs))) = saveStatus st"
proof (cases rs)
  case Nil
  then show ?thesis by (cases s) auto
next
  case (Cons r rs')
  assume "finished s \<or> (\<exists>c. s = Await c InitAwaitHide)"
  then show ?thesis
  proof
    assume "finished s"
    then show ?thesis by (cases s) auto
  next
    assume "\<exists>c. s = Await c InitAwaitHide"
    then obtain c where s: "s = Await c InitAwaitHide" ..
    show ?thesis
      by (cases r)
         (simp_all add: s Cons initialize_resume_def init_catch_def init_post_def logError_def case_prod_beta)
  qed
qed

lemma initialize_resume_load [simp]:
  "initialize_resume env st (InitLoad k) r = init_load env (loadStateFromFile_resume st k r)"
  by (simp add: initialize_resume_def)

lemma init_load_simps [simp]:
  "init_load env (st, Await c k) = (st, Await c (InitLoad k))"
  "init_load env (st, Done v) = init_after_load env st v"
  "init_load env (st, Throw e) = init_catch st"
  by (simp_all add: init_load_def)

lemma drive_init_load:
  "drive loadStateFromFile_resume (st, s) rs1 = ((st1, Done v), cs1) \<Longrightarrow>
   fst (drive (initialize_resume env) (init_load env (st, s)) (take (length cs1) rs1 @ rs2))
     = fst (drive (initialize_resume env) (init_after_load env st1 v) rs2)"
proof (induction rs1 arbitrary: st s cs1)
  case Nil
  then show ?case by (cases s) auto
next
  case (Cons r rs)
  show ?case
  proof (cases s)
    case (Await c k)
    obtain st' s' where res: "loadStateFromFile_resume st k r = (st', s')"
      by (cases "loadStateFromFile_resume st k r")
    obtain cs' where cs': "drive loadStateFromFile_resume (st', s') rs = ((st1, Done v), cs')"
      and cs1: "cs1 = c # cs'"
      using Cons.prems by (auto simp: Await res split: prod.splits)
    from Cons.IH [OF cs'] show ?thesis
      by (simp add: Await cs1 res case_prod_beta)
  next
    case (Done x)
    with Cons.prems show ?thesis by auto
  next
    case (Throw e)
    with Cons.prems show ?thesis by auto
  qed
qed

text \<open>
  C6 (as amended). When the status store could be created (a Pinia instance is present),
  initialization ends with the status Unsaved if the load yields null or another empty value,
  and Saved if it yields a non-empty document. The host replies first to the load and then to
  the rest of the initialization.
\<close>

theorem initialize_status:
  "pinia env \<Longrightarrow> teraReady st \<Longrightarrow> progress_available st \<Longrightarrow>
   snd (fst (drive loadStateFromFile_resume
         (loadStateFromFile_start (createSyncStatusStore st env) (nanoid env)) rs1)) = Done fileData \<Longrightarrow>
   getSaveStatus (fst (fst (drive (initialize_resume env) (initialize_start env st)
       (Resolved v0 # take (length (snd (drive loadStateFromFile_resume
           (loadStateFromFile_start (createSyncStatusStore st env) (nanoid env)) rs1))) rs1 @ rs2))))
     = (if truthy fileData then SAVED else UNSAVED)"
proof -
  assume p: "pinia env" and ready: "teraReady st" and pa: "progress_available st"
  let ?st0 = "createSyncStatusStore st env"
  let ?L = "drive loadStateFromFile_resume (loadStateFromFile_start ?st0 (nanoid env)) rs1"
  assume yield: "snd (fst ?L) = Done fileData"
  obtain sl where start: "loadStateFromFile_start ?st0 (nanoid env) = (fst (loadStateFromFile_start ?st0 (nanoid env)), sl)"
    by (cases "loadStateFromFile_start ?st0 (nanoid env)") simp
  let ?sl0 = "fst (loadStateFromFile_start ?st0 (nanoid env))"
  have n0: "syncStatusStore ?st0 \<noteq> None" using p by (simp add: createSyncStatusStore_def)
  have n1: "syncStatusStore ?sl0 \<noteq> None"
    using n0 frame_loadStateFromFile_start [of ?st0 "nanoid env"] by (simp add: frame_def)
  have L: "?L = ((fst (fst ?L), Done fileData), snd ?L)"
    using yield by (metis prod.collapse)
  have n2: "syncStatusStore (fst (fst ?L)) \<noteq> None"
    using drive_invariant [where P = "\<lambda>s. syncStatusStore s \<noteq> None" and resume = loadStateFromFile_resume,
        OF store_present_load_resume n1, of sl rs1] start by simp
  have "initialize_start env st = (st, Await (UiProgressShow ''Loading tool data'') InitAwaitShow)"
    using ready progress_available_tera [OF pa] by (auto simp: initialize_start_def get_tera_def)
  then have "fst (drive (initialize_resume env) (initialize_start env st)
       (Resolved v0 # take (length (snd ?L)) rs1 @ rs2))
     = fst (drive (initialize_resume env) (init_load env (loadStateFromFile_start ?st0 (nanoid env)))
         (take (length (snd ?L)) rs1 @ rs2))"
    by (simp add: initialize_resume_def init_try_def case_prod_beta)
  also have "\<dots> = fst (drive (initialize_resume env) (init_after_load env (fst (fst ?L)) fileData) rs2)"
    using drive_init_load [of "?sl0" sl rs1 "fst (fst ?L)" fileData "snd ?L" env rs2] L start by simp
  finally have "saveStatus (fst (fst (drive (initialize_resume env) (initialize_start env st)
       (Resolved v0 # take (length (snd ?L)) rs1 @ rs2))))
     = saveStatus (fst (init_after_load env (fst (fst ?L)) fileData))"
    using drive_init_tail [OF init_after_load_shape, of env "fst (init_after_load env (fst (fst ?L)) fileData)"
        env "fst (fst ?L)" fileData rs2]
    by simp
  then show ?thesis by (simp add: getSaveStatus_def init_after_load_status [OF n2])
qed

theorem initialize_status_witness:
  "pinia demo_env \<and> teraReady demo_ready \<and> progress_available demo_ready
   \<and> snd (fst (drive loadStateFromFile_resume
         (loadStateFromFile_start (createSyncStatusStore demo_ready demo_env) (nanoid demo_env))
         [Resolved JUndefined, Resolved JUndefined, Rejected ''file not found''])) = Done JNull
   \<and> getSaveStatus (fst (fst (drive (initialize_resume demo_env) (initialize_start demo_env demo_ready)
         [Resolved JUndefined, Resolved JUndefined, Resolved JUndefined, Rejected ''file not found'',
          Resolved JUndefined]))) = UNSAVED
   \<and> snd (fst (drive loadStateFromFile_resume
         (loadStateFromFile_start (createSyncStatusStore demo_ready demo_env) (nanoid demo_env))
         [Resolved JUndefined, Resolved JUndefined, Resolved demo_state])) = Done demo_state
   \<and> getSaveStatus (fst (fst (drive (initialize_resume demo_env) (initialize_start demo_env demo_ready)
         [Resolved JUndefined, Resolved JUndefined, Resolved JUndefined, Resolved demo_state,
          Resolved JUndefined]))) = SAVED"
proof -
  let ?rs1 = "[Resolved JUndefined, Resolved JUndefined, Rejected ''file not found'']"
  let ?rs1' = "[Resolved JUndefined, Resolved JUndefined, Resolved demo_state]"
  have a: "pinia demo_env" "teraReady demo_ready" "progress_available demo_ready"
    by (simp_all add: demo_eval demo_ready_def progress_available_def host_shape_def)
  have b: "snd (fst (drive loadStateFromFile_resume
         (loadStateFromFile_start (createSyncStatusStore demo_ready demo_env) (nanoid demo_env)) ?rs1)) = Done JNull"
    "snd (fst (drive loadStateFromFile_resume
         (loadStateFromFile_start (createSyncStatusStore demo_ready demo_env) (nanoid demo_env)) ?rs1')) = Done demo_state"
    by (simp_all add: plugin_eval demo_eval demo_ready_def Let_def)
  have c: "length (snd (drive loadStateFromFile_resume
         (loadStateFromFile_start (createSyncStatusStore demo_ready demo_env) (nanoid demo_env)) ?rs1)) = 3"
    "length (snd (drive loadStateFromFile_resume
         (loadStateFromFile_start (createSyncStatusStore demo_ready demo_env) (nanoid demo_env)) ?rs1')) = 3"
    by (simp_all add: plugin_eval demo_eval demo_ready_def Let_def)
  have d: "truthy demo_state" by (simp add: demo_state_def)
  from initialize_status [OF a b(1), of JUndefined "[Resolved JUndefined]"]
    initialize_status [OF a b(2), of JUndefined "[Resolved JUndefined]"]
    a b c d
  show ?thesis by simp
qed

text \<open>
  Counterexample for C6 as stated: without a Pinia instance the status store is not created,
  the load yields null, initialization completes, and the status is still Saved.
\<close>

theorem initialize_status_counterexample:
  "snd (fst (drive loadStateFromFile_resume
         (loadStateFromFile_start (createSyncStatusStore demo_ready demo_env_no_pinia) (nanoid demo_env_no_pinia))
         [Resolved JUndefined, Resolved JUndefined, Rejected ''file not found''])) = Done JNull
   \<and> snd (fst (drive (initialize_resume demo_env_no_pinia) (setTeraReady_start demo_env_no_pinia demo_bound)
         [Resolved JUndefined, Resolved JUndefined, Resolved JUndefined, Rejected ''file not found'',
          Resolved JUndefined])) = Done ()
   \<and> initialized (fst (fst (drive (initialize_resume demo_env_no_pinia) (setTeraReady_start demo_env_no_pinia demo_bound)
         [Resolved JUndefined, Resolved JUndefined, Resolved JUndefined, Rejected ''file not found'',
          Resolved JUndefined])))
   \<and> getSaveStatus (fst (fst (drive (initialize_resume demo_env_no_pinia) (setTeraReady_start demo_env_no_pinia demo_bound)
         [Resolved JUndefined, Resolved JUndefined, Resolved JUndefined, Rejected ''file not found'',
          Resolved JUndefined]))) = SAVED"
  by (simp add: plugin_eval demo_eval demo_ready_def demo_env_no_pinia_def Let_def)

subsection \<open>The storage file name\<close>

lemma map_of_insert_new: "k \<notin> fst ` set ps \<Longrightarrow> map_of (insert_new ps k v) k = Some v"
  by (induction ps) auto

lemma map_of_update: "k \<in> fst ` set ps \<Longrightarrow> map_of (map (\<lambda>p. if fst p = k then (k, v) else p) ps) k = Some v"
  by (induction ps) auto

lemma map_of_obj_set: "map_of (obj_set ps k v) k = Some v"
  by (simp add: obj_set_def map_of_insert_new map_of_update)

lemma get_tera_set_project:
  "get_tera (set_project st p) = map_option (\<lambda>t. t\<lparr> project := Some p \<rparr>) (get_tera st)"
  by (simp add: get_tera_def set_project_def split: option.splits)

lemma set_project_fields [simp]:
  "config (set_project st p) = config st" "userId (set_project st p) = userId st"
  by (simp_all add: set_project_def)

lemma get_tera_userId [simp]: "get_tera (st\<lparr> userId := u \<rparr>) = get_tera st"
  by (simp add: get_tera_def)

lemma get_project_tera: "get_project st = (case get_tera st of None \<Rightarrow> None | Some t \<Rightarrow> project t)"
  by (simp add: get_project_def)

lemma run_host_finished [simp]: "finished s \<Longrightarrow> run_host uid resume (st, s) n = ((st, s), [])"
  by (cases s; cases n) simp_all

lemma host_persist_other [simp]:
  "host_persist GetUser st = st" "host_persist (CreateProjectFile f) st = st"
  by (simp_all add: host_persist_def)

lemma fn_lookup_run:
  assumes t: "get_tera s = Some t" "project t = Some p" "project_temp p = Some tmp"
      "\<not> falsy_string (project_id p)"
    and run: "run_host uid getStorageFileName_resume (fn_lookup s key nid) (Suc (Suc n)) = ((s1, Done loc), cs)"
  shows "located s1 key loc \<and> userId s1 = userId s \<and> config s1 = config s
         \<and> (\<exists>t1. get_tera s1 = Some t1 \<and> getUser_fn t1 = getUser_fn t)
         \<and> length (filter is_create cs) \<le> 1"
proof (cases "\<exists>v. map_of tmp key = Some v \<and> truthy v")
  case True
  then obtain v where v: "map_of tmp key = Some v" "truthy v" by blast
  have l: "fn_lookup s key nid = fn_finish s v"
    using t v by (simp add: fn_lookup_def get_project_tera)
  show ?thesis
  proof (cases v)
    case (JStr name)
    with run l t v show ?thesis
      by (auto simp: fn_finish_def get_project_tera located_def)
  qed (use run l t in \<open>auto simp: fn_finish_def get_project_tera\<close>)
next
  case False
  define name where "name = ''data-'' @ keyPrefix (config s) @ ''-'' @ nid @ ''.json''"
  have ne: "name \<noteq> []" by (simp add: name_def)
  have l: "fn_lookup s key nid = fn_create s key nid"
    using t False by (auto simp: fn_lookup_def get_project_tera split: option.splits)
  show ?thesis
  proof (cases "createProjectFile_fn t \<and> setProjectState_fn t")
    case False
    with run l t show ?thesis
      by (auto simp: fn_create_def Let_def getStorageFileName_resume_def host_reply_def split: if_splits)
  next
    case True
    let ?p' = "p\<lparr> project_temp := Some (obj_set tmp key (JStr name)) \<rparr>"
    let ?s' = "set_project s ?p'"
    have persist: "host_persist (SetProjectState (''temp.'' @ key) name) s = ?s'"
      using t by (simp add: host_persist_def get_project_tera)
    have fin: "fn_finish ?s' (JStr name) = (?s', Done (template_string ''undefined'' (project_id p) @ ''/'' @ name))"
      using t by (simp add: fn_finish_def get_project_tera get_tera_set_project)
    have c: "fn_create s key nid = (s, Await (CreateProjectFile name) (FnAwaitCreate key name))"
      using True t by (simp add: fn_create_def Let_def name_def)
    have "run_host uid getStorageFileName_resume (fn_lookup s key nid) (Suc (Suc n))
        = ((?s', Done (template_string ''undefined'' (project_id p) @ ''/'' @ name)),
           [CreateProjectFile name, SetProjectState (''temp.'' @ key) name])"
      using True t
      by (simp add: l c getStorageFileName_resume_def host_reply_def persist [simplified] fin)
    with run have s1: "s1 = ?s'" and loc: "loc = template_string ''undefined'' (project_id p) @ ''/'' @ name"
      and cs: "cs = [CreateProjectFile name, SetProjectState (''temp.'' @ key) name]"
      by simp_all
    have "located ?s' key loc"
      unfolding located_def
      using t loc ne by (simp add: get_tera_set_project map_of_obj_set)
    then show ?thesis
      using t by (simp add: s1 cs get_tera_set_project)
  qed
qed

lemma get_tera_vue: "get_tera st = Some t \<Longrightarrow> vueInstance st \<noteq> None"
  by (auto simp: get_tera_def split: option.splits)

lemma userId_update_same: "userId st = Some u \<Longrightarrow> st\<lparr> userId := Some u \<rparr> = st"
  by (cases st) simp

lemma located_start:
  assumes "located st key loc"
  shows "getStorageFileName_start st nid = fn_after_key nid (getStorageKey_start st)"
    and "fn_lookup st key nid = (st, Done loc)"
  using assms
  by (auto simp: located_def getStorageFileName_start_def fn_lookup_def fn_finish_def get_project_tera Let_def)

lemma second_call:
  assumes l: "located st key loc" and k: "key_stable uid st key"
  shows "\<exists>cs. run_host uid getStorageFileName_resume (getStorageFileName_start st nid) (Suc n)
            = ((st, Done loc), cs) \<and> filter is_create cs = []"
proof (cases "isSeparateStateForEachUser (config st)")
  case False
  with k have "getStorageKey_start st = (st, Done key)"
    by (simp add: key_stable_def getStorageKey_start_def)
  with located_start [OF l, of nid] show ?thesis by (simp add: fn_after_key_def)
next
  case True
  with k obtain u where u: "userId st = Some u" "key = keyPrefix (config st) @ ''-'' @ u"
    and e: "u = [] \<Longrightarrow> uid = [] \<and> (\<exists>t. get_tera st = Some t \<and> getUser_fn t)"
    by (auto simp: key_stable_def)
  show ?thesis
  proof (cases "u = []")
    case False
    with True u have "getStorageKey_start st = (st, Done key)"
      by (simp add: getStorageKey_start_def falsy_string_def template_string_def)
    with located_start [OF l, of nid] show ?thesis by (simp add: fn_after_key_def)
  next
    case empty: True
    with e obtain t where t: "uid = []" "get_tera st = Some t" "getUser_fn t" by blast
    have v: "vueInstance st \<noteq> None" using t(2) by (rule get_tera_vue)
    have "getStorageKey_start st = (st, Await GetUser KeyAwaitUser)"
      using True u empty t v by (simp add: getStorageKey_start_def falsy_string_def)
    moreover have "getStorageKey_resume st KeyAwaitUser (host_reply uid GetUser) = (st, Done key)"
      using u empty t userId_update_same [OF u(1)]
      by (simp add: getStorageKey_resume_def host_reply_def user_id_def template_string_def)
    ultimately show ?thesis
      using located_start [OF l, of nid]
      by (simp add: fn_after_key_def getStorageFileName_resume_def)
  qed
qed

lemma first_call:
  assumes run: "run_host uid getStorageFileName_resume (getStorageFileName_start st nid) 3 = ((st1, Done loc), cs)"
  shows "\<exists>key. located st1 key loc \<and> key_stable uid st1 key \<and> length (filter is_create cs) \<le> 1"
proof -
  from run obtain p where p: "get_project st = Some p"
    by (cases "get_project st") (auto simp: getStorageFileName_start_def)
  then obtain t where t: "get_tera st = Some t" "project t = Some p"
    by (auto simp: get_project_tera split: option.splits)
  define p' where "p' = (if project_temp p = None then p\<lparr> project_temp := Some [] \<rparr> else p)"
  define st' where "st' = (if project_temp p = None then set_project st p' else st)"
  have id: "\<not> falsy_string (project_id p')"
    using run p by (auto simp: getStorageFileName_start_def Let_def p'_def split: if_splits)
  have start: "getStorageFileName_start st nid = fn_after_key nid (getStorageKey_start st')"
    using p id by (simp add: getStorageFileName_start_def Let_def p'_def st'_def)
  obtain tmp where tmp: "project_temp p' = Some tmp"
    by (cases "project_temp p") (auto simp: p'_def)
  have "\<exists>t'. get_tera st' = Some t' \<and> project t' = Some p' \<and> getUser_fn t' = getUser_fn t"
  proof (cases "project_temp p = None")
    case True
    with t show ?thesis by (simp add: st'_def get_tera_set_project)
  next
    case False
    with t show ?thesis by (auto simp: st'_def p'_def)
  qed
  then obtain t' where t': "get_tera st' = Some t'" "project t' = Some p'" "getUser_fn t' = getUser_fn t"
    by blast
  have cfg: "config st' = config st" "userId st' = userId st" by (simp_all add: st'_def)
  have v: "vueInstance st' \<noteq> None" using t'(1) by (rule get_tera_vue)
  note lookup = fn_lookup_run [OF t'(1,2) tmp id]
  show ?thesis
  proof (cases "isSeparateStateForEachUser (config st')")
    case False
    then have key: "getStorageKey_start st' = (st', Done (keyPrefix (config st')))"
      by (simp add: getStorageKey_start_def)
    from run have "run_host uid getStorageFileName_resume (fn_lookup st' (keyPrefix (config st')) nid) (Suc (Suc 1))
        = ((st1, Done loc), cs)"
      by (simp add: start key fn_after_key_def numeral_3_eq_3)
    from lookup [OF this] False show ?thesis
      by (auto simp: key_stable_def)
  next
    case True
    show ?thesis
    proof (cases "falsy_string (userId st')")
      case False
      then obtain u where u: "userId st' = Some u" "u \<noteq> []"
        by (auto simp: falsy_string_def split: option.splits)
      let ?key = "keyPrefix (config st') @ ''-'' @ u"
      have key: "getStorageKey_start st' = (st', Done ?key)"
        using True False u by (simp add: getStorageKey_start_def template_string_def)
      from run have "run_host uid getStorageFileName_resume (fn_lookup st' ?key nid) (Suc (Suc 1))
          = ((st1, Done loc), cs)"
        by (simp add: start key fn_after_key_def numeral_3_eq_3)
      from lookup [OF this] True u show ?thesis
        by (auto simp: key_stable_def)
    next
      case falsy: True
      show ?thesis
      proof (cases "getUser_fn t'")
        case False
        with True falsy v t' have "getStorageKey_start st' = (logError st' ''Failed to get user ID'', Throw TypeError)"
          by (simp add: getStorageKey_start_def)
        with run show ?thesis by (simp add: start fn_after_key_def)
      next
        case getUser: True
        let ?st2 = "st'\<lparr> userId := Some uid \<rparr>"
        let ?key = "keyPrefix (config st') @ ''-'' @ uid"
        have key: "getStorageKey_start st' = (st', Await GetUser KeyAwaitUser)"
          using True falsy v t' getUser by (simp add: getStorageKey_start_def)
        have res: "getStorageKey_resume st' KeyAwaitUser (host_reply uid GetUser) = (?st2, Done ?key)"
          by (simp add: getStorageKey_resume_def host_reply_def user_id_def template_string_def)
        from run obtain cs' where cs: "cs = GetUser # cs'"
          and run': "run_host uid getStorageFileName_resume (fn_lookup ?st2 ?key nid) (Suc (Suc 0))
            = ((st1, Done loc), cs')"
          by (auto simp: start key res fn_after_key_def numeral_3_eq_3 getStorageFileName_resume_def
              split: prod.splits)
        have t2: "get_tera ?st2 = Some t'" using t'(1) by simp
        from fn_lookup_run [OF t2 t'(2) tmp id run'] True getUser show ?thesis
          by (auto simp: key_stable_def cs)
      qed
    qed
  qed
qed

text \<open>
  C7. With a host that carries out every call and records the file name it is given by
  setProjectState in the project's temp mapping, and with nothing else touching the project
  metadata between the two calls: when a first call of getStorageFileName returns a locator,
  a second call returns the same locator and does not create a file, so that both calls
  together create at most one.
\<close>

theorem getStorageFileName_stable:
  "run_host uid getStorageFileName_resume (getStorageFileName_start st nid1) 3 = ((st1, Done loc), cs1) \<Longrightarrow>
     snd (fst (run_host uid getStorageFileName_resume (getStorageFileName_start st1 nid2) 3)) = Done loc
     \<and> filter is_create (snd (run_host uid getStorageFileName_resume (getStorageFileName_start st1 nid2) 3)) = []
     \<and> length (filter is_create
          (cs1 @ snd (run_host uid getStorageFileName_resume (getStorageFileName_start st1 nid2) 3))) \<le> 1"
proof -
  assume "run_host uid getStorageFileName_resume (getStorageFileName_start st nid1) 3 = ((st1, Done loc), cs1)"
  from first_call [OF this] obtain key where key: "located st1 key loc" "key_stable uid st1 key"
    and one: "length (filter is_create cs1) \<le> 1"
    by blast
  from second_call [OF key, of nid2 2] obtain cs2
    where "run_host uid getStorageFileName_resume (getStorageFileName_start st1 nid2) 3 = ((st1, Done loc), cs2)"
      and "filter is_create cs2 = []"
    by (auto simp: numeral_3_eq_3)
  with one show ?thesis by simp
qed

theorem getStorageFileName_stable_witness:
  "snd (fst (run_host ''u7'' getStorageFileName_resume (getStorageFileName_start demo_user_plugin ''n1'') 3))
     = Done ''p1/data-demo-n1.json''
   \<and> filter is_create (snd (run_host ''u7'' getStorageFileName_resume (getStorageFileName_start demo_user_plugin ''n1'') 3))
     = [CreateProjectFile ''data-demo-n1.json'']
   \<and> snd (fst (run_host ''u7'' getStorageFileName_resume
        (getStorageFileName_start
          (fst (fst (run_host ''u7'' getStorageFileName_resume (getStorageFileName_start demo_user_plugin ''n1'') 3)))
          ''n2'') 3))
     = Done ''p1/data-demo-n1.json''
   \<and> filter is_create (snd (run_host ''u7'' getStorageFileName_resume
        (getStorageFileName_start
          (fst (fst (run_host ''u7'' getStorageFileName_resume (getStorageFileName_start demo_user_plugin ''n1'') 3)))
          ''n2'') 3))
     = []"
proof -
  let ?R1 = "run_host ''u7'' getStorageFileName_resume (getStorageFileName_start demo_user_plugin ''n1'') 3"
  have a: "snd (fst ?R1) = Done ''p1/data-demo-n1.json''"
    "filter is_create (snd ?R1) = [CreateProjectFile ''data-demo-n1.json'']"
    by (simp_all add: plugin_eval demo_eval Let_def numeral_3_eq_3 js_eval)
  then have "?R1 = ((fst (fst ?R1), Done ''p1/data-demo-n1.json''), snd ?R1)"
    by (metis prod.collapse)
  from getStorageFileName_stable [OF this, of "''n2''"] a show ?thesis by simp
qed

end
